theory Spec2Isabelle
  imports Complex_Main "HOL-Library.Word"
begin

section \<open>Arrays, scalars and errors\<close>

text \<open>
  The script works on NumPy arrays and TensorFlow tensors. Both are modelled as a shape
  together with the row-major list of the elements. Element values are idealised as real
  numbers (no rounding, no overflow); the one non-real outcome kept is the NaN/Inf that a
  mean over zero elements or a division by a zero size produces, as \<open>NonFinite\<close>.
\<close>

text \<open>
  The exceptions of the modelled calls: a shape that an operation rejects, a failed
  unpacking or squeeze, an index out of bounds. \<open>NumericalDivergenceError\<close> is the
  error the specification names for a diverging run; no statement of the script raises it.
\<close>

datatype error = InvalidArgumentError | ValueError | IndexError | NumericalDivergenceError

datatype scalar = Finite real | NonFinite

record 'a ndarray =
  shape :: "nat list"
  data :: "'a list"

definition wf_array :: "'a ndarray \<Rightarrow> bool" where
  "wf_array a = (length (data a) = prod_list (shape a))"

fun s_add :: "scalar \<Rightarrow> scalar \<Rightarrow> scalar" where
  "s_add (Finite x) (Finite y) = Finite (x + y)"
| "s_add _ _ = NonFinite"

fun s_mul :: "scalar \<Rightarrow> scalar \<Rightarrow> scalar" where
  "s_mul (Finite x) (Finite y) = Finite (x * y)"
| "s_mul _ _ = NonFinite"

text \<open>Sequencing of calls that may raise: the first exception ends the computation.\<close>

definition bind_err :: "error + 'a \<Rightarrow> ('a \<Rightarrow> error + 'b) \<Rightarrow> error + 'b" where
  "bind_err m f = (case m of Inl e \<Rightarrow> Inl e | Inr x \<Rightarrow> f x)"

subsection \<open>Rank-2 tensors\<close>

text \<open>
  \<open>tf.reshape(a, [r, c])\<close> always yields a rank-2 tensor, and \<open>gram_matrix\<close> is only
  ever called on such a tensor, so rank-2 tensors get a type of their own: \<open>nrows\<close> by
  \<open>ncols\<close> entries in row-major order.
\<close>

record matrix =
  nrows :: nat
  ncols :: nat
  elems :: "real list"

definition entry :: "matrix \<Rightarrow> nat \<Rightarrow> nat \<Rightarrow> real" where
  "entry A i j = elems A ! (i * ncols A + j)"

definition mk_matrix :: "nat \<Rightarrow> nat \<Rightarrow> (nat \<Rightarrow> nat \<Rightarrow> real) \<Rightarrow> matrix" where
  "mk_matrix r c f = \<lparr>nrows = r, ncols = c, elems = map (\<lambda>k. f (k div c) (k mod c)) [0..<r * c]\<rparr>"

text \<open>\<open>tf.reshape(a, shape=[r, c])\<close>: the element count must agree; the buffer is kept.\<close>

definition tf_reshape :: "real ndarray \<Rightarrow> nat \<Rightarrow> nat \<Rightarrow> error + matrix" where
  "tf_reshape a r c =
     (if length (data a) = r * c then Inr \<lparr>nrows = r, ncols = c, elems = data a\<rparr>
      else Inl InvalidArgumentError)"

text \<open>\<open>tf.transpose\<close> of a rank-2 tensor (with or without \<open>perm = [1, 0]\<close>).\<close>

definition tf_transpose :: "matrix \<Rightarrow> matrix" where
  "tf_transpose A = mk_matrix (ncols A) (nrows A) (\<lambda>i j. entry A j i)"

text \<open>\<open>tf.matmul\<close> of two rank-2 tensors: the inner dimensions must agree.\<close>

definition tf_matmul :: "matrix \<Rightarrow> matrix \<Rightarrow> error + matrix" where
  "tf_matmul A B =
     (if ncols A = nrows B
      then Inr (mk_matrix (nrows A) (ncols B)
                  (\<lambda>i j. sum_list (map (\<lambda>k. entry A i k * entry B k j) [0..<ncols A])))
      else Inl InvalidArgumentError)"

definition gram_matrix :: "matrix \<Rightarrow> error + matrix" where
  "gram_matrix A = tf_matmul A (tf_transpose A)"

subsection \<open>Elementwise operations and reductions\<close>

text \<open>
  Broadcasting, on reversed shapes (innermost dimension first): two dimensions are
  compatible when they are equal or one of them is 1. \<open>bindex ds ss k\<close> is the position,
  in an operand of reversed shape \<open>ss\<close>, of the element used for position \<open>k\<close> of the
  result of reversed shape \<open>ds\<close>.
\<close>

fun broadcast_shapes :: "nat list \<Rightarrow> nat list \<Rightarrow> nat list option" where
  "broadcast_shapes [] ys = Some ys"
| "broadcast_shapes xs [] = Some xs"
| "broadcast_shapes (x # xs) (y # ys) =
     (if x = y \<or> y = 1 then map_option ((#) x) (broadcast_shapes xs ys)
      else if x = 1 then map_option ((#) y) (broadcast_shapes xs ys)
      else None)"

fun bindex :: "nat list \<Rightarrow> nat list \<Rightarrow> nat \<Rightarrow> nat" where
  "bindex (d # ds) (s # ss) k = (if s = 1 then 0 else k mod d) + s * bindex ds ss (k div d)"
| "bindex _ _ k = 0"

definition tf_sub :: "real ndarray \<Rightarrow> real ndarray \<Rightarrow> error + real ndarray" where
  "tf_sub a b =
     (case broadcast_shapes (rev (shape a)) (rev (shape b)) of
        None \<Rightarrow> Inl InvalidArgumentError
      | Some ds \<Rightarrow>
          Inr \<lparr>shape = rev ds,
               data = map (\<lambda>k. data a ! bindex ds (rev (shape a)) k
                                 - data b ! bindex ds (rev (shape b)) k)
                          [0..<prod_list ds]\<rparr>)"

definition tf_square :: "real ndarray \<Rightarrow> real ndarray" where
  "tf_square a = \<lparr>shape = shape a, data = map (\<lambda>x. x * x) (data a)\<rparr>"

text \<open>\<open>tf.reduce_mean\<close> over all elements; over no elements it is NaN.\<close>

definition tf_reduce_mean :: "real ndarray \<Rightarrow> scalar" where
  "tf_reduce_mean a =
     (if data a = [] then NonFinite
      else Finite (sum_list (data a) / real (length (data a))))"

definition as_tensor :: "matrix \<Rightarrow> real ndarray" where
  "as_tensor M = \<lparr>shape = [nrows M, ncols M], data = elems M\<rparr>"

section \<open>The script's globals\<close>

text \<open>
  The pretrained network, the image decoder, automatic differentiation and the Adam
  optimizer are library code. They are parameters of the model: \<open>content_model\<close> and
  \<open>style_models\<close> are the Keras sub-models, \<open>load_img\<close> the decoder reading the file
  system, \<open>tape_gradient\<close> the gradient of a loss function at a point, \<open>adam_init\<close>
  and \<open>adam_apply\<close> the optimizer with its state of type \<open>'o\<close>.
\<close>

record 'o env =
  load_img :: "string \<Rightarrow> error + 8 word ndarray"
  content_model :: "real ndarray \<Rightarrow> error + real ndarray"
  style_models :: "(real ndarray \<Rightarrow> error + real ndarray) list"
  tape_gradient :: "(real ndarray \<Rightarrow> error + scalar) \<Rightarrow> real ndarray \<Rightarrow> real ndarray"
  adam_init :: "real \<Rightarrow> 'o"
  adam_apply :: "'o \<Rightarrow> real ndarray \<Rightarrow> real ndarray \<Rightarrow> 'o \<times> real ndarray"

definition STYLE_IMAGE :: string where
  "STYLE_IMAGE = ''/content/drive/My Drive/Colab Notebooks/NST/style.jpg''"

definition CONTENT_IMAGE :: string where
  "CONTENT_IMAGE = ''/content/drive/My Drive/Colab Notebooks/NST/lotus-1.jpg''"

definition style_coeff :: "real list" where
  "style_coeff = [0.5, 0.6, 0.8, 0.8, 0.5]"

section \<open>Loading and preprocessing\<close>

definition img_to_array :: "8 word ndarray \<Rightarrow> real ndarray" where
  "img_to_array img = \<lparr>shape = shape img, data = map (\<lambda>w. real (unat w)) (data img)\<rparr>"

definition vgg_mean :: "nat \<Rightarrow> real" where
  "vgg_mean c = (if c = 0 then 103.939 else if c = 1 then 116.779 else if c = 2 then 123.68 else 0)"

text \<open>
  Modelled from the spec: \<open>preprocess_input\<close> is the Keras VGG19 function, not part of
  the script. The spec describes it as channel-order reversal (RGB to BGR) with
  channel-mean subtraction; the means are those \<open>deprocess_image\<close> adds back. It works
  on the last axis and needs three channels there.
\<close>

definition preprocess_input :: "real ndarray \<Rightarrow> error + real ndarray" where
  "preprocess_input x =
     (case rev (shape x) of
        [] \<Rightarrow> Inl IndexError
      | C # _ \<Rightarrow>
          if C < 3 then Inl IndexError
          else Inr \<lparr>shape = shape x,
                    data = map (\<lambda>k. data x ! (k - k mod C + (C - 1 - k mod C)) - vgg_mean (k mod C))
                               [0..<length (data x)]\<rparr>)"

definition np_expand_dims :: "'a ndarray \<Rightarrow> 'a ndarray" where
  "np_expand_dims a = \<lparr>shape = 1 # shape a, data = data a\<rparr>"

definition load_and_process_image :: "'o env \<Rightarrow> string \<Rightarrow> error + real ndarray" where
  "load_and_process_image E image_path =
     bind_err (load_img E image_path) (\<lambda>image.
     bind_err (preprocess_input (img_to_array image)) (\<lambda>image.
       Inr (np_expand_dims image)))"

section \<open>Deprocessing, with the caller's array in a store\<close>

text \<open>
  \<open>deprocess_image\<close> updates its argument in place, so arrays live in a store: a
  reference is a shape and the address of a buffer, and a view made by \<open>np.squeeze\<close>
  or by indexing the leading axis at 0 is another reference to the same buffer.
\<close>

type_synonym addr = nat

type_synonym heap = "addr \<Rightarrow> real list"

record array_ref =
  ref_shape :: "nat list"
  ref_buf :: addr

text \<open>The index along the third axis of the element at flat position \<open>k\<close>.\<close>

definition axis2 :: "nat list \<Rightarrow> nat \<Rightarrow> nat" where
  "axis2 sh k = (k div prod_list (drop 3 sh)) mod (sh ! 2)"

text \<open>\<open>x[:, :, c] += v\<close>: needs three axes and index \<open>c\<close> within the third.\<close>

definition iadd_channel :: "array_ref \<Rightarrow> nat \<Rightarrow> real \<Rightarrow> heap \<Rightarrow> (error + unit) \<times> heap" where
  "iadd_channel x c v h =
     (if length (ref_shape x) < 3 \<or> ref_shape x ! 2 \<le> c then (Inl IndexError, h)
      else (Inr (),
            h(ref_buf x :=
               map (\<lambda>k. h (ref_buf x) ! k + (if axis2 (ref_shape x) k = c then v else 0))
                   [0..<length (h (ref_buf x))])))"

text \<open>\<open>x[:, :, ::-1]\<close>, read out as a list of its own.\<close>

definition flip_axis2 :: "nat list \<Rightarrow> real list \<Rightarrow> real list" where
  "flip_axis2 sh xs =
     map (\<lambda>k. xs ! (k + (sh ! 2 - 1 - axis2 sh k) * prod_list (drop 3 sh)
                     - axis2 sh k * prod_list (drop 3 sh)))
         [0..<length xs]"

definition np_clip :: "real \<Rightarrow> real \<Rightarrow> real \<Rightarrow> real" where
  "np_clip v lo hi = min (max v lo) hi"

text \<open>\<open>astype('uint8')\<close>: truncation towards zero, then the low eight bits.\<close>

definition astype_uint8 :: "real \<Rightarrow> 8 word" where
  "astype_uint8 v = word_of_int (if 0 \<le> v then \<lfloor>v\<rfloor> else \<lceil>v\<rceil>)"

definition deprocess_image :: "array_ref \<Rightarrow> heap \<Rightarrow> (error + 8 word ndarray) \<times> heap" where
  "deprocess_image x h =
     (case iadd_channel x 0 103.939 h of
        (Inl e, h1) \<Rightarrow> (Inl e, h1)
      | (Inr _, h1) \<Rightarrow>
     (case iadd_channel x 1 116.779 h1 of
        (Inl e, h2) \<Rightarrow> (Inl e, h2)
      | (Inr _, h2) \<Rightarrow>
     (case iadd_channel x 2 123.68 h2 of
        (Inl e, h3) \<Rightarrow> (Inl e, h3)
      | (Inr _, h3) \<Rightarrow>
          (Inr \<lparr>shape = ref_shape x,
                data = map (\<lambda>v. astype_uint8 (np_clip v 0 255))
                           (flip_axis2 (ref_shape x) (h3 (ref_buf x)))\<rparr>,
           h3))))"

text \<open>The plotting calls of \<open>display_image\<close> only draw; they are left out.\<close>

definition display_image :: "array_ref \<Rightarrow> heap \<Rightarrow> (error + unit) \<times> heap" where
  "display_image x h =
     (if length (ref_shape x) = 4
      then (if hd (ref_shape x) = 1
            then (case deprocess_image (x\<lparr>ref_shape := tl (ref_shape x)\<rparr>) h of
                    (Inl e, h') \<Rightarrow> (Inl e, h')
                  | (Inr img, h') \<Rightarrow> (Inr (), h'))
            else (Inl ValueError, h))
      else (case deprocess_image x h of
              (Inl e, h') \<Rightarrow> (Inl e, h')
            | (Inr img, h') \<Rightarrow> (Inr (), h')))"

section \<open>The two costs\<close>

definition content_cost :: "'o env \<Rightarrow> real ndarray \<Rightarrow> real ndarray \<Rightarrow> error + scalar" where
  "content_cost E content_image generated_image =
     bind_err (content_model E content_image) (\<lambda>a_C.
     bind_err (content_model E generated_image) (\<lambda>a_G.
     bind_err (tf_sub a_C a_G) (\<lambda>d.
       Inr (s_mul (Finite 0.05) (tf_reduce_mean (tf_square d))))))"

text \<open>
  \<open>1/4*1/np.square(n_C)*1/np.square(n_H*n_W)\<close>: NumPy divides by a zero size without
  raising and gives Inf.
\<close>

definition style_norm :: "nat \<Rightarrow> nat \<Rightarrow> scalar" where
  "style_norm n_C n_HW =
     (if n_C = 0 \<or> n_HW = 0 then NonFinite
      else Finite (1 / 4 * 1 / (real n_C)\<^sup>2 * 1 / (real n_HW)\<^sup>2))"

text \<open>The body of the loop of \<open>style_cost\<close> for one style model.\<close>

definition current_style_cost ::
  "(real ndarray \<Rightarrow> error + real ndarray) \<Rightarrow> real ndarray \<Rightarrow> real ndarray \<Rightarrow> error + scalar" where
  "current_style_cost style_model style_image generated_image =
     bind_err (style_model style_image) (\<lambda>a_S.
     bind_err (style_model generated_image) (\<lambda>a_G.
       case shape a_G of
         [m, n_H, n_W, n_C] \<Rightarrow>
           bind_err (tf_reshape a_S (n_H * n_W) n_C) (\<lambda>r_S.
           bind_err (tf_reshape a_G (n_H * n_W) n_C) (\<lambda>r_G.
           bind_err (gram_matrix (tf_transpose r_S)) (\<lambda>GMS.
           bind_err (gram_matrix (tf_transpose r_G)) (\<lambda>GMG.
           bind_err (tf_sub (as_tensor GMS) (as_tensor GMG)) (\<lambda>d.
             Inr (s_mul (style_norm n_C (n_H * n_W)) (tf_reduce_mean (tf_square d))))))))
       | _ \<Rightarrow> Inl ValueError))"

fun style_cost_loop ::
  "(nat \<times> (real ndarray \<Rightarrow> error + real ndarray)) list \<Rightarrow> real ndarray \<Rightarrow> real ndarray
     \<Rightarrow> scalar \<Rightarrow> error + scalar" where
  "style_cost_loop [] style_image generated_image total_style_cost = Inr total_style_cost"
| "style_cost_loop ((i, style_model) # rest) style_image generated_image total_style_cost =
     bind_err (current_style_cost style_model style_image generated_image) (\<lambda>cur.
       if i < length style_coeff
       then style_cost_loop rest style_image generated_image
              (s_add total_style_cost (s_mul (Finite (style_coeff ! i)) cur))
       else Inl IndexError)"

definition style_cost :: "'o env \<Rightarrow> real ndarray \<Rightarrow> real ndarray \<Rightarrow> error + scalar" where
  "style_cost E style_image generated_image =
     style_cost_loop (enumerate 0 (style_models E)) style_image generated_image (Finite 0)"

section \<open>Training\<close>

text \<open>What a Python list may hold; \<open>costs\<close> holds the floats \<open>J_total.numpy()\<close>.\<close>

datatype pyobj = PyFloat scalar | PyInt int | PyTuple "pyobj list"

record 'o train_state =
  generated_image :: "real ndarray"
  optimizer :: 'o
  generated_images :: "real ndarray list"
  costs :: "pyobj list"

text \<open>The loss under the gradient tape, as a function of the generated image.\<close>

definition J_total_of ::
  "'o env \<Rightarrow> real \<Rightarrow> real \<Rightarrow> real ndarray \<Rightarrow> real ndarray \<Rightarrow> real ndarray \<Rightarrow> error + scalar" where
  "J_total_of E alpha beta content_image_preprocessed style_image_preprocessed g =
     bind_err (content_cost E content_image_preprocessed g) (\<lambda>J_content.
     bind_err (style_cost E style_image_preprocessed g) (\<lambda>J_style.
       Inr (s_add (s_mul (Finite alpha) J_content) (s_mul (Finite beta) J_style))))"

text \<open>
  One pass of the loop body for index \<open>i\<close>. \<open>generated_image.numpy()\<close> is a copy, so the
  in-place update made by \<open>display_image\<close> stays in a buffer of its own and only a raised
  error reaches the loop.
\<close>

definition train_step ::
  "'o env \<Rightarrow> real \<Rightarrow> real \<Rightarrow> real ndarray \<Rightarrow> real ndarray \<Rightarrow> nat \<Rightarrow> 'o train_state
     \<Rightarrow> error + 'o train_state" where
  "train_step E alpha beta content_image_preprocessed style_image_preprocessed i st =
     bind_err (J_total_of E alpha beta content_image_preprocessed style_image_preprocessed
                 (generated_image st)) (\<lambda>J_total.
       let grads = tape_gradient E
             (J_total_of E alpha beta content_image_preprocessed style_image_preprocessed)
             (generated_image st);
           (opt', g') = adam_apply E (optimizer st) grads (generated_image st);
           costs' = costs st @ [PyFloat J_total]
       in if i mod 200 = 0
          then bind_err (fst (display_image \<lparr>ref_shape = shape g', ref_buf = 0\<rparr> (\<lambda>_. data g')))
                 (\<lambda>_. Inr \<lparr>generated_image = g', optimizer = opt',
                            generated_images = generated_images st @ [g'], costs = costs'\<rparr>)
          else Inr \<lparr>generated_image = g', optimizer = opt',
                    generated_images = generated_images st, costs = costs'\<rparr>)"

fun train_loop ::
  "'o env \<Rightarrow> real \<Rightarrow> real \<Rightarrow> real ndarray \<Rightarrow> real ndarray \<Rightarrow> nat list \<Rightarrow> 'o train_state
     \<Rightarrow> error + 'o train_state" where
  "train_loop E alpha beta cip sip [] st = Inr st"
| "train_loop E alpha beta cip sip (i # rest) st =
     (case train_step E alpha beta cip sip i st of
        Inl e \<Rightarrow> Inl e
      | Inr st' \<Rightarrow> train_loop E alpha beta cip sip rest st')"

definition init_state :: "'o env \<Rightarrow> real ndarray \<Rightarrow> real \<Rightarrow> 'o train_state" where
  "init_state E content_image_preprocessed lr =
     \<lparr>generated_image = content_image_preprocessed, optimizer = adam_init E lr,
      generated_images = [], costs = []\<rparr>"

definition train ::
  "'o env \<Rightarrow> 'a \<Rightarrow> 'b \<Rightarrow> real \<Rightarrow> real \<Rightarrow> int \<Rightarrow> real
     \<Rightarrow> error + (real ndarray list \<times> pyobj list)" where
  "train E content_image style_image alpha beta Iterations lr =
     bind_err (load_and_process_image E CONTENT_IMAGE) (\<lambda>content_image_preprocessed.
     bind_err (load_and_process_image E STYLE_IMAGE) (\<lambda>style_image_preprocessed.
     bind_err (train_loop E alpha beta content_image_preprocessed style_image_preprocessed
                 [0..<nat Iterations] (init_state E content_image_preprocessed lr)) (\<lambda>st.
       Inr (generated_images st, costs st))))"

section \<open>A small instance\<close>

text \<open>
  An environment small enough to run the definitions on: the decoder yields a one-pixel
  image (one for the style path, another for every other path), the network is the
  identity, the gradient and the optimizer leave the image as it is.
\<close>

definition demo_env :: "unit env" where
  "demo_env =
     \<lparr>load_img = (\<lambda>p. if p = STYLE_IMAGE then Inr \<lparr>shape = [1, 1, 3], data = [40, 50, 60]\<rparr>
                       else Inr \<lparr>shape = [1, 1, 3], data = [10, 20, 30]\<rparr>),
      content_model = (\<lambda>x. Inr x),
      style_models = [\<lambda>x. Inr x],
      tape_gradient = (\<lambda>L x. x),
      adam_init = (\<lambda>_. ()),
      adam_apply = (\<lambda>opt grads x. (opt, x))\<rparr>"

section \<open>The style cost as the specification words it\<close>

text \<open>
  For one layer: the activation map (batch 1, \<open>n_H\<close> by \<open>n_W\<close> positions, \<open>n_C\<close>
  channels) is read as the matrix of channels by spatial positions, \<open>spec_gram\<close> is
  that matrix times its transpose, and the layer's cost is the mean squared difference of
  the two Gram matrices, normalised by \<open>1 / (4 * channels\<^sup>2 * positions\<^sup>2)\<close>. The style
  cost is the sum over the layers of weight times layer cost.
\<close>

definition spec_unrolled :: "real ndarray \<Rightarrow> nat \<Rightarrow> nat \<Rightarrow> real" where
  "spec_unrolled a c p = data a ! (p * (shape a ! 3) + c)"

definition spec_gram :: "real ndarray \<Rightarrow> nat \<Rightarrow> nat \<Rightarrow> real" where
  "spec_gram a i j =
     sum_list (map (\<lambda>p. spec_unrolled a i p * spec_unrolled a j p)
                   [0..<shape a ! 1 * (shape a ! 2)])"

definition spec_layer_style_cost :: "real ndarray \<Rightarrow> real ndarray \<Rightarrow> real" where
  "spec_layer_style_cost a_S a_G =
     (let C = shape a_G ! 3; P = shape a_G ! 1 * (shape a_G ! 2)
      in 1 / (4 * (real C)\<^sup>2 * (real P)\<^sup>2)
         * (sum_list (map (\<lambda>i. sum_list (map (\<lambda>j. (spec_gram a_S i j - spec_gram a_G i j)\<^sup>2)
                                           [0..<C])) [0..<C])
            / real (C * C)))"

definition spec_style_cost :: "real list \<Rightarrow> real ndarray list \<Rightarrow> real ndarray list \<Rightarrow> real" where
  "spec_style_cost ws a_Ss a_Gs =
     sum_list (map (\<lambda>(w, a_S, a_G). w * spec_layer_style_cost a_S a_G)
                   (zip ws (zip a_Ss a_Gs)))"

text \<open>
  A pair of activation maps of one layer as the network produces them: well-formed, of the
  same shape, with batch size 1 and no empty dimension.
\<close>

definition activation_pair_ok :: "real ndarray \<Rightarrow> real ndarray \<Rightarrow> bool" where
  "activation_pair_ok a_S a_G =
     (wf_array a_S \<and> wf_array a_G \<and> shape a_S = shape a_G \<and>
      (case shape a_G of
         [m, n_H, n_W, n_C] \<Rightarrow> m = 1 \<and> 0 < n_H \<and> 0 < n_W \<and> 0 < n_C
       | _ \<Rightarrow> False))"

section \<open>The loss record as the specification words it\<close>

text \<open>
  The specification has the loop append the tuple (iteration, \<open>J_total\<close>, \<open>J_style\<close>,
  \<open>J_content\<close>) to the loss history.
\<close>

definition spec_loss_record ::
  "'o env \<Rightarrow> real \<Rightarrow> real \<Rightarrow> real ndarray \<Rightarrow> real ndarray \<Rightarrow> nat \<Rightarrow> real ndarray
     \<Rightarrow> error + pyobj" where
  "spec_loss_record E alpha beta cip sip i g =
     bind_err (content_cost E cip g) (\<lambda>J_content.
     bind_err (style_cost E sip g) (\<lambda>J_style.
       Inr (PyTuple [PyInt (int i),
                     PyFloat (s_add (s_mul (Finite alpha) J_content) (s_mul (Finite beta) J_style)),
                     PyFloat J_style, PyFloat J_content])))"


text \<open>The two preprocessed images of that environment.\<close>

definition demo_content :: "real ndarray" where
  "demo_content = \<lparr>shape = [1, 1, 1, 3], data = [- (73939 / 1000), - (96779 / 1000), - (2842 / 25)]\<rparr>"

definition demo_style :: "real ndarray" where
  "demo_style = \<lparr>shape = [1, 1, 1, 3], data = [- (43939 / 1000), - (66779 / 1000), - (2092 / 25)]\<rparr>"


section \<open>The range of float32\<close>

text \<open>
  Real arithmetic stands for the script's float32 arithmetic only while no value
  overflows. \<open>FLT_MAX\<close> is the largest finite float32. An activation map has its Gram
  matrix in range when every channel's sum of squares is at most \<open>FLT_MAX\<close>: then every
  product, every partial sum and every entry of the Gram matrix is (Cauchy-Schwarz).
  Beyond it float32 yields Inf, and the difference of two such Gram matrices is
  Inf - Inf, which is NaN.
\<close>

definition FLT_MAX :: real where
  "FLT_MAX = (2 - 1 / 2 ^ 23) * 2 ^ 127"

definition gram_in_range :: "real ndarray \<Rightarrow> bool" where
  "gram_in_range a = list_all (\<lambda>i. spec_gram a i i \<le> FLT_MAX) [0..<shape a ! 3]"



section \<open>Properties\<close>

lemma entry_mk_matrix:
  "i < r \<Longrightarrow> j < c \<Longrightarrow> entry (mk_matrix r c f) i j = f i j"
proof -
  assume i: "i < r" and j: "j < c"
  have "i * c + j < Suc i * c" using j by simp
  also have "\<dots> \<le> r * c" using i by (simp only: mult_le_mono1 Suc_leI)
  finally have lt: "i * c + j < r * c" .
  show ?thesis using lt j by (simp add: entry_def mk_matrix_def)
qed

lemma entry_tf_transpose:
  "i < ncols A \<Longrightarrow> j < nrows A \<Longrightarrow> entry (tf_transpose A) i j = entry A j i"
  by (simp add: tf_transpose_def entry_mk_matrix)

lemma gram_matrix_returns:
  "gram_matrix A = Inr (mk_matrix (nrows A) (nrows A)
     (\<lambda>i j. sum_list (map (\<lambda>k. entry A i k * entry (tf_transpose A) k j) [0..<ncols A])))"
  by (simp add: gram_matrix_def tf_matmul_def tf_transpose_def mk_matrix_def)

lemma gram_entry:
  assumes "gram_matrix A = Inr G" and "i < nrows A" and "j < nrows A"
  shows "entry G i j = sum_list (map (\<lambda>k. entry A i k * entry A j k) [0..<ncols A])"
proof -
  have G: "G = mk_matrix (nrows A) (nrows A)
     (\<lambda>i j. sum_list (map (\<lambda>k. entry A i k * entry (tf_transpose A) k j) [0..<ncols A]))"
    using assms(1) by (simp add: gram_matrix_returns)
  have "entry G i j = sum_list (map (\<lambda>k. entry A i k * entry (tf_transpose A) k j) [0..<ncols A])"
    unfolding G using assms(2,3) by (rule entry_mk_matrix)
  also have "\<dots> = sum_list (map (\<lambda>k. entry A i k * entry A j k) [0..<ncols A])"
    using assms(3) by (intro arg_cong[where f = sum_list] map_cong) (simp_all add: entry_tf_transpose)
  finally show ?thesis .
qed


lemma sum_list_squares_nonneg: "0 \<le> sum_list (map (\<lambda>k. (f k :: real) * f k) xs)"
  by (induction xs) simp_all

text \<open>
  C8. For every rank-2 tensor \<open>M\<close> (rows are channels), \<open>gram_matrix M\<close> returns the
  square matrix \<open>M\<close> times its transpose: entry \<open>(i, j)\<close> is the inner product of rows
  \<open>i\<close> and \<open>j\<close> of \<open>M\<close>. The result is symmetric, and every diagonal entry is the sum of
  the squares of that row, hence non-negative.
\<close>

theorem gram_matrix_product_symmetric:
  "\<exists>G. gram_matrix M = Inr G \<and> nrows G = nrows M \<and> ncols G = nrows M \<and>
       length (elems G) = nrows M * nrows M \<and>
       (\<forall>i<nrows M. \<forall>j<nrows M.
          entry G i j = sum_list (map (\<lambda>k. entry M i k * entry M j k) [0..<ncols M]) \<and>
          entry G i j = entry G j i) \<and>
       (\<forall>i<nrows M.
          entry G i i = sum_list (map (\<lambda>k. (entry M i k)\<^sup>2) [0..<ncols M]) \<and>
          0 \<le> entry G i i)"
proof -
  obtain G where G: "gram_matrix M = Inr G" and
      dims: "nrows G = nrows M" "ncols G = nrows M" "length (elems G) = nrows M * nrows M"
    by (simp add: gram_matrix_returns mk_matrix_def)
  have prod: "entry G i j = sum_list (map (\<lambda>k. entry M i k * entry M j k) [0..<ncols M])"
    if "i < nrows M" "j < nrows M" for i j
    using G that by (rule gram_entry)
  have sym: "entry G i j = entry G j i" if "i < nrows M" "j < nrows M" for i j
    using prod[OF that] prod[OF that(2) that(1)] by (simp add: mult.commute)
  have diag: "entry G i i = sum_list (map (\<lambda>k. (entry M i k)\<^sup>2) [0..<ncols M])"
    if "i < nrows M" for i
    using prod[OF that that] by (simp add: power2_eq_square)
  have nonneg: "0 \<le> entry G i i" if "i < nrows M" for i
    using prod[OF that that] sum_list_squares_nonneg[of "\<lambda>k. entry M i k"] by simp
  show ?thesis
    using G dims prod sym diag nonneg by blast
qed

theorem gram_matrix_product_symmetric_witness:
  "gram_matrix \<lparr>nrows = 2, ncols = 3, elems = [1, 2, 3, 0, -1, 4]\<rparr>
     = Inr \<lparr>nrows = 2, ncols = 2, elems = [14, 10, 10, 17]\<rparr> \<and>
   entry \<lparr>nrows = 2, ncols = 2, elems = [14, 10, 10, 17]\<rparr> 0 1
     = entry \<lparr>nrows = 2, ncols = 2, elems = [14, 10, 10, 17]\<rparr> 1 0 \<and>
   0 \<le> entry \<lparr>nrows = 2, ncols = 2, elems = [14, 10, 10, 17]\<rparr> 1 1"
proof -
  let ?M = "\<lparr>nrows = 2, ncols = 3, elems = [1, 2, 3, 0, -1, 4]\<rparr>"
  let ?G = "\<lparr>nrows = 2, ncols = 2, elems = [14, 10, 10, 17]\<rparr>"
  have run: "gram_matrix ?M = Inr ?G"
    by (simp add: gram_matrix_def tf_matmul_def tf_transpose_def mk_matrix_def entry_def upt_rec)
  from gram_matrix_product_symmetric [of ?M]
  obtain G where G: "gram_matrix ?M = Inr G"
    and sym: "\<forall>i<nrows ?M. \<forall>j<nrows ?M. entry G i j = entry G j i"
    and diag: "\<forall>i<nrows ?M. 0 \<le> entry G i i"
    by blast
  have G_eq: "G = ?G" using G run by simp
  have "(0::nat) < nrows ?M" and "(1::nat) < nrows ?M" by simp_all
  then have "entry ?G 0 1 = entry ?G 1 0" and "0 \<le> entry ?G 1 1"
    using sym diag unfolding G_eq by blast+
  with run show ?thesis by simp
qed

subsection \<open>Content cost\<close>

lemma broadcast_shapes_same: "broadcast_shapes xs xs = Some xs"
  by (induction xs) simp_all

lemma bindex_same: "k < prod_list ds \<Longrightarrow> bindex ds ds k = k"
proof (induction ds arbitrary: k)
  case Nil
  then show ?case by simp
next
  case (Cons d ds)
  from Cons.prems have lt: "k < d * prod_list ds" by simp
  then have dpos: "0 < d" by (cases d) simp_all
  from lt dpos have "k div d < prod_list ds"
    by (simp add: less_mult_imp_div_less mult.commute)
  then have ih: "bindex ds ds (k div d) = k div d" by (rule Cons.IH)
  show ?case
  proof (cases "d = 1")
    case True
    then show ?thesis using ih by simp
  next
    case False
    then show ?thesis using ih by simp
  qed
qed

lemma tf_sub_same_shape:
  assumes "shape a = shape b"
  shows "tf_sub a b = Inr \<lparr>shape = shape a,
           data = map (\<lambda>k. data a ! k - data b ! k) [0..<prod_list (shape a)]\<rparr>"
proof -
  have "map (\<lambda>k. data a ! bindex (rev (shape a)) (rev (shape a)) k
                 - data b ! bindex (rev (shape a)) (rev (shape a)) k)
            [0..<prod_list (rev (shape a))]
        = map (\<lambda>k. data a ! k - data b ! k) [0..<prod_list (rev (shape a))]"
    by (rule map_cong) (simp_all add: bindex_same)
  then show ?thesis
    using assms by (simp add: tf_sub_def broadcast_shapes_same)
qed


lemma content_cost_same_shape:
  assumes aC: "content_model E c = Inr a_C"
    and aG: "content_model E g = Inr a_G"
    and sh: "shape a_C = shape a_G"
    and wf: "wf_array a_C"
    and ne: "data a_C \<noteq> []"
  shows "content_cost E c g =
           Inr (Finite (0.05 * (sum_list (map (\<lambda>k. (data a_C ! k - data a_G ! k)\<^sup>2)
                                   [0..<length (data a_C)]) / real (length (data a_C)))))"
proof -
  have n: "prod_list (shape a_C) = length (data a_C)"
    using wf by (simp add: wf_array_def)
  have pos: "0 < length (data a_C)" using ne by simp
  show ?thesis
    using pos
    by (simp add: content_cost_def bind_err_def aC aG tf_sub_same_shape[OF sh] n
        tf_square_def tf_reduce_mean_def power2_eq_square comp_def)
qed




subsection \<open>Style cost\<close>

lemma flat_sum_as_double_sum:
  "sum_list (map (\<lambda>k. h (k div c) (k mod c)) [0..<r * c])
     = sum_list (map (\<lambda>i. sum_list (map (\<lambda>j. (h i j :: real)) [0..<c])) [0..<r])"
proof (induction r)
  case 0
  then show ?case by simp
next
  case (Suc r)
  have "[0..<Suc r * c] = [0..<r * c + c]" by (simp add: add.commute)
  also have "\<dots> = [0..<r * c] @ [r * c..<r * c + c]"
    by (rule upt_add_eq_append) simp
  also have "[r * c..<r * c + c] = map (\<lambda>j. j + r * c) [0..<c]"
    by (simp only: map_add_upt add.commute)
  finally have split: "[0..<Suc r * c] = [0..<r * c] @ map (\<lambda>j. j + r * c) [0..<c]" .
  have row: "map (\<lambda>k. h (k div c) (k mod c)) (map (\<lambda>j. j + r * c) [0..<c])
               = map (\<lambda>j. h r j) [0..<c]"
    unfolding map_map by (rule map_cong) simp_all
  show ?case
    unfolding split map_append sum_list_append row
    using Suc.IH by simp
qed

lemma unrolled_entry:
  assumes "tf_reshape a P C = Inr R" and "c < C" and "p < P"
  shows "entry (tf_transpose R) c p = data a ! (p * C + c)"
proof -
  from assms(1) have R: "R = \<lparr>nrows = P, ncols = C, elems = data a\<rparr>"
    by (simp add: tf_reshape_def split: if_splits)
  have "entry (tf_transpose R) c p = entry R p c"
    using assms(2,3) by (simp add: entry_tf_transpose R)
  then show ?thesis by (simp add: R entry_def)
qed


lemma gram_unrolled_entry:
  assumes len: "length (data a) = P * C"
    and sh: "shape a ! 3 = C" "shape a ! 1 * (shape a ! 2) = P"
    and R: "tf_reshape a P C = Inr R"
    and G: "gram_matrix (tf_transpose R) = Inr G"
    and i: "i < C" and j: "j < C"
  shows "entry G i j = spec_gram a i j"
proof -
  have dims: "nrows (tf_transpose R) = C" "ncols (tf_transpose R) = P"
    using R by (auto simp add: tf_reshape_def tf_transpose_def mk_matrix_def split: if_splits)
  have "entry G i j
          = sum_list (map (\<lambda>p. entry (tf_transpose R) i p * entry (tf_transpose R) j p) [0..<P])"
    using gram_entry[OF G, of i j] i j dims by simp
  also have "\<dots> = sum_list (map (\<lambda>p. data a ! (p * C + i) * data a ! (p * C + j)) [0..<P])"
    by (intro arg_cong[where f = sum_list] map_cong)
       (simp_all add: unrolled_entry[OF R i] unrolled_entry[OF R j])
  also have "\<dots> = spec_gram a i j"
    by (simp only: spec_gram_def spec_unrolled_def sh)
  finally show ?thesis .
qed

lemma gram_as_tensor:
  assumes G: "gram_matrix A = Inr G" and n: "nrows A = C"
  shows "as_tensor G = \<lparr>shape = [C, C],
           data = map (\<lambda>k. entry G (k div C) (k mod C)) [0..<C * C]\<rparr>"
proof -
  have Gd: "nrows G = C" "ncols G = C" "length (elems G) = C * C"
    using G n by (auto simp add: gram_matrix_returns mk_matrix_def)
  have "elems G = map (\<lambda>k. elems G ! k) [0..<C * C]"
    using Gd(3) by (metis map_nth)
  also have "\<dots> = map (\<lambda>k. entry G (k div C) (k mod C)) [0..<C * C]"
    by (rule map_cong) (simp_all add: entry_def Gd)
  finally show ?thesis by (simp add: as_tensor_def Gd)
qed


lemma current_style_cost_spec:
  assumes ok: "activation_pair_ok a_S a_G"
    and mS: "style_model s = Inr a_S" and mG: "style_model g = Inr a_G"
  shows "current_style_cost style_model s g = Inr (Finite (spec_layer_style_cost a_S a_G))"
proof -
  from ok obtain H W C where shG: "shape a_G = [1, H, W, C]"
    and shS: "shape a_S = [1, H, W, C]"
    and pos: "0 < H" "0 < W" "0 < C"
    and wf: "wf_array a_S" "wf_array a_G"
    by (auto simp add: activation_pair_ok_def split: list.splits)
  define P where "P = H * W"
  have Ppos: "0 < P" using pos by (simp add: P_def)
  have lenS: "length (data a_S) = P * C" and lenG: "length (data a_G) = P * C"
    using wf shS shG by (simp_all add: wf_array_def P_def)
  have idxS: "shape a_S ! 3 = C" "shape a_S ! 1 * (shape a_S ! 2) = P"
    and idxG: "shape a_G ! 3 = C" "shape a_G ! 1 * (shape a_G ! 2) = P"
    by (simp_all add: shS shG P_def numeral_3_eq_3 numeral_2_eq_2)
  define R_S where "R_S = \<lparr>nrows = P, ncols = C, elems = data a_S\<rparr>"
  define R_G where "R_G = \<lparr>nrows = P, ncols = C, elems = data a_G\<rparr>"
  have rS: "tf_reshape a_S P C = Inr R_S" and rG: "tf_reshape a_G P C = Inr R_G"
    by (simp_all add: tf_reshape_def lenS lenG R_S_def R_G_def)
  have rowsS: "nrows (tf_transpose R_S) = C" and rowsG: "nrows (tf_transpose R_G) = C"
    by (simp_all add: tf_transpose_def mk_matrix_def R_S_def R_G_def)
  obtain G_S where gS: "gram_matrix (tf_transpose R_S) = Inr G_S"
    by (simp add: gram_matrix_returns)
  obtain G_G where gG: "gram_matrix (tf_transpose R_G) = Inr G_G"
    by (simp add: gram_matrix_returns)
  define D where "D = \<lparr>shape = [C, C],
      data = map (\<lambda>k. entry G_S (k div C) (k mod C) - entry G_G (k div C) (k mod C))
                 [0..<C * C]\<rparr>"
  have tS: "as_tensor G_S = \<lparr>shape = [C, C],
      data = map (\<lambda>k. entry G_S (k div C) (k mod C)) [0..<C * C]\<rparr>"
    using gS rowsS by (rule gram_as_tensor)
  have tG: "as_tensor G_G = \<lparr>shape = [C, C],
      data = map (\<lambda>k. entry G_G (k div C) (k mod C)) [0..<C * C]\<rparr>"
    using gG rowsG by (rule gram_as_tensor)
  have "tf_sub (as_tensor G_S) (as_tensor G_G)
          = Inr \<lparr>shape = [C, C],
                 data = map (\<lambda>k. data (as_tensor G_S) ! k - data (as_tensor G_G) ! k)
                            [0..<C * C]\<rparr>"
    using tf_sub_same_shape[of "as_tensor G_S" "as_tensor G_G"] by (simp add: tS tG)
  also have "map (\<lambda>k. data (as_tensor G_S) ! k - data (as_tensor G_G) ! k) [0..<C * C]
               = data D"
    unfolding D_def ndarray.simps by (rule map_cong) (simp_all add: tS tG)
  finally have sub: "tf_sub (as_tensor G_S) (as_tensor G_G) = Inr D"
    by (simp add: D_def)
  have run: "current_style_cost style_model s g
               = Inr (s_mul (style_norm C P) (tf_reduce_mean (tf_square D)))"
    by (simp add: current_style_cost_def bind_err_def mS mG shG rS rG gS gG sub
        P_def[symmetric])
  have CCpos: "0 < C * C" using pos by simp
  have "sum_list (data (tf_square D))
          = sum_list (map (\<lambda>k. (entry G_S (k div C) (k mod C) - entry G_G (k div C) (k mod C))\<^sup>2)
                          [0..<C * C])"
    by (simp add: tf_square_def D_def comp_def power2_eq_square)
  also have "\<dots> = sum_list (map (\<lambda>i. sum_list (map (\<lambda>j. (entry G_S i j - entry G_G i j)\<^sup>2)
                                  [0..<C])) [0..<C])"
    by (rule flat_sum_as_double_sum)
  also have "\<dots> = sum_list (map (\<lambda>i. sum_list (map (\<lambda>j. (spec_gram a_S i j - spec_gram a_G i j)\<^sup>2)
                                  [0..<C])) [0..<C])"
  proof (intro arg_cong[where f = sum_list] map_cong refl)
    fix i j assume "i \<in> set [0..<C]" and "j \<in> set [0..<C]"
    then have i: "i < C" and j: "j < C" by simp_all
    have "entry G_S i j = spec_gram a_S i j"
      using lenS idxS rS gS i j by (rule gram_unrolled_entry)
    moreover have "entry G_G i j = spec_gram a_G i j"
      using lenG idxG rG gG i j by (rule gram_unrolled_entry)
    ultimately show "(entry G_S i j - entry G_G i j)\<^sup>2 = (spec_gram a_S i j - spec_gram a_G i j)\<^sup>2"
      by simp
  qed
  finally have total: "sum_list (data (tf_square D))
      = sum_list (map (\<lambda>i. sum_list (map (\<lambda>j. (spec_gram a_S i j - spec_gram a_G i j)\<^sup>2)
                                  [0..<C])) [0..<C])" .
  have lenD: "length (data (tf_square D)) = C * C"
    by (simp add: tf_square_def D_def)
  have ne: "data (tf_square D) \<noteq> []" using lenD CCpos by auto
  have mean: "tf_reduce_mean (tf_square D)
      = Finite (sum_list (map (\<lambda>i. sum_list (map (\<lambda>j. (spec_gram a_S i j - spec_gram a_G i j)\<^sup>2)
                                  [0..<C])) [0..<C]) / real (C * C))"
    unfolding tf_reduce_mean_def using ne by (simp only: if_False total lenD)
  have norm: "style_norm C P = Finite (1 / (4 * (real C)\<^sup>2 * (real P)\<^sup>2))"
    using pos Ppos by (simp add: style_norm_def)
  have spec: "spec_layer_style_cost a_S a_G
      = 1 / (4 * (real C)\<^sup>2 * (real P)\<^sup>2)
        * (sum_list (map (\<lambda>i. sum_list (map (\<lambda>j. (spec_gram a_S i j - spec_gram a_G i j)\<^sup>2)
                                  [0..<C])) [0..<C]) / real (C * C))"
    by (simp only: spec_layer_style_cost_def Let_def idxG)
  show ?thesis
    unfolding run mean norm spec by simp
qed


lemma spec_style_cost_Cons:
  "spec_style_cost (w # ws) (a_S # a_Ss) (a_G # a_Gs)
     = w * spec_layer_style_cost a_S a_G + spec_style_cost ws a_Ss a_Gs"
  by (simp add: spec_style_cost_def)

lemma style_cost_loop_spec:
  assumes "map (\<lambda>m. m s) ms = map Inr a_Ss"
    and "map (\<lambda>m. m g) ms = map Inr a_Gs"
    and "list_all2 activation_pair_ok a_Ss a_Gs"
    and "n + length ms \<le> length style_coeff"
  shows "style_cost_loop (enumerate n ms) s g (Finite t)
           = Inr (Finite (t + spec_style_cost (drop n style_coeff) a_Ss a_Gs))"
  using assms
proof (induction ms arbitrary: n t a_Ss a_Gs)
  case Nil
  then show ?case by (simp add: spec_style_cost_def)
next
  case (Cons m ms)
  from Cons.prems(1) obtain a_S Ss where Ss: "a_Ss = a_S # Ss"
    and mS: "m s = Inr a_S" and restS: "map (\<lambda>m. m s) ms = map Inr Ss"
    by (cases a_Ss) auto
  from Cons.prems(2) obtain a_G Gs where Gs: "a_Gs = a_G # Gs"
    and mG: "m g = Inr a_G" and restG: "map (\<lambda>m. m g) ms = map Inr Gs"
    by (cases a_Gs) auto
  from Cons.prems(3) have ok: "activation_pair_ok a_S a_G"
    and oks: "list_all2 activation_pair_ok Ss Gs"
    by (simp_all add: Ss Gs)
  from Cons.prems(4) have n: "n < length style_coeff"
    and n': "Suc n + length ms \<le> length style_coeff"
    by simp_all
  have cur: "current_style_cost m s g = Inr (Finite (spec_layer_style_cost a_S a_G))"
    using ok mS mG by (rule current_style_cost_spec)
  have dr: "drop n style_coeff = style_coeff ! n # drop (Suc n) style_coeff"
    using n by (simp add: Cons_nth_drop_Suc)
  have "style_cost_loop (enumerate n (m # ms)) s g (Finite t)
          = style_cost_loop (enumerate (Suc n) ms) s g
              (Finite (t + style_coeff ! n * spec_layer_style_cost a_S a_G))"
    using n by (simp add: bind_err_def cur)
  also have "\<dots> = Inr (Finite (t + style_coeff ! n * spec_layer_style_cost a_S a_G
                          + spec_style_cost (drop (Suc n) style_coeff) Ss Gs))"
    using restS restG oks n' by (rule Cons.IH)
  finally show ?case
    by (simp add: Ss Gs dr spec_style_cost_Cons add.assoc)
qed

lemma style_cost_weighted_gram_sum_general:
  assumes "map (\<lambda>m. m s) (style_models E) = map Inr a_Ss"
    and "map (\<lambda>m. m g) (style_models E) = map Inr a_Gs"
    and "list_all2 activation_pair_ok a_Ss a_Gs"
    and "length (style_models E) \<le> length style_coeff"
  shows "style_cost E s g = Inr (Finite (spec_style_cost style_coeff a_Ss a_Gs))"
  using style_cost_loop_spec[OF assms(1,2,3), of 0 0] assms(4)
  by (simp add: style_cost_def)


text \<open>
  C4. When every style layer yields well-formed activation maps of matching shape for the
  style and the generated image, \<open>style_cost\<close> is the sum over the configured layers of
  the layer's weight times \<open>1 / (4 * channels\<^sup>2 * positions\<^sup>2)\<close> times the mean squared
  difference between the Gram matrices of the two maps, each map being reshaped to
  channels by spatial positions and multiplied by its own transpose.
\<close>

theorem style_cost_weighted_gram_sum:
  assumes "map (\<lambda>m. m s) (style_models E) = map Inr a_Ss"
    and "map (\<lambda>m. m g) (style_models E) = map Inr a_Gs"
    and "list_all2 activation_pair_ok a_Ss a_Gs"
    and "length (style_models E) \<le> length style_coeff"
  shows "style_cost E s g = Inr (Finite (spec_style_cost style_coeff a_Ss a_Gs))"
  using assms by (rule style_cost_weighted_gram_sum_general)

lemma demo_spec_style_cost_value:
  "spec_style_cost style_coeff [\<lparr>shape = [1, 1, 2, 2], data = [1, 2, 3, 4]\<rparr>]
     [\<lparr>shape = [1, 1, 2, 2], data = [1, 2, 3, 5]\<rparr>] = 99 / 512"
  by (simp add: spec_style_cost_def style_coeff_def spec_layer_style_cost_def Let_def
      spec_gram_def spec_unrolled_def upt_rec numeral_3_eq_3 numeral_2_eq_2)


theorem style_cost_weighted_gram_sum_witness:
  "style_cost demo_env \<lparr>shape = [1, 1, 2, 2], data = [1, 2, 3, 4]\<rparr>
     \<lparr>shape = [1, 1, 2, 2], data = [1, 2, 3, 5]\<rparr> = Inr (Finite (99 / 512))"
proof -
  let ?s = "\<lparr>shape = [1, 1, 2, 2], data = [1, 2, 3, 4 :: real]\<rparr>"
  let ?g = "\<lparr>shape = [1, 1, 2, 2], data = [1, 2, 3, 5 :: real]\<rparr>"
  have "style_cost demo_env ?s ?g = Inr (Finite (spec_style_cost style_coeff [?s] [?g]))"
    by (rule style_cost_weighted_gram_sum)
       (simp_all add: demo_env_def activation_pair_ok_def wf_array_def style_coeff_def)
  then show ?thesis by (simp only: demo_spec_style_cost_value)
qed

















text \<open>
  The claim also fails, on the script, where float32 overflows: for an activation value
  of \<open>2 ^ 65\<close> the Gram entry \<open>2 ^ 130\<close> is Inf in float32 and the difference of the two
  identical Gram matrices is NaN. Such a map is outside \<open>gram_in_range\<close>.
\<close>

lemma overflowing_map_not_in_range:
  "\<not> gram_in_range \<lparr>shape = [1, 1, 1, 1], data = [2 ^ 65]\<rparr>"
  by (simp add: gram_in_range_def spec_gram_def spec_unrolled_def FLT_MAX_def upt_rec
      numeral_3_eq_3 numeral_2_eq_2)



subsection \<open>Training loop\<close>

lemma train_loop_append:
  "train_loop E alpha beta cip sip (xs @ ys) st =
     (case train_loop E alpha beta cip sip xs st of
        Inl e \<Rightarrow> Inl e
      | Inr st' \<Rightarrow> train_loop E alpha beta cip sip ys st')"
  by (induction xs arbitrary: st) (simp_all split: sum.splits)

lemma train_step_result:
  assumes "train_step E alpha beta cip sip i st = Inr st'"
  shows "\<exists>J. J_total_of E alpha beta cip sip (generated_image st) = Inr J \<and>
             costs st' = costs st @ [PyFloat J] \<and>
             generated_images st' =
               generated_images st @ (if i mod 200 = 0 then [generated_image st'] else [])"
  using assms
  by (auto simp add: train_step_def bind_err_def Let_def split: sum.splits prod.splits if_splits)

lemma train_loop_lengths:
  "train_loop E alpha beta cip sip xs st = Inr st' \<Longrightarrow>
     length (costs st') = length (costs st) + length xs \<and>
     length (generated_images st') =
       length (generated_images st) + length (filter (\<lambda>i. i mod 200 = 0) xs)"
proof (induction xs arbitrary: st)
  case Nil
  then show ?case by simp
next
  case (Cons i xs)
  from Cons.prems obtain st1 where step: "train_step E alpha beta cip sip i st = Inr st1"
    and rest: "train_loop E alpha beta cip sip xs st1 = Inr st'"
    by (auto split: sum.splits)
  from train_step_result[OF step]
  have "length (costs st1) = length (costs st) + 1"
    and "length (generated_images st1) =
           length (generated_images st) + (if i mod 200 = 0 then 1 else 0)"
    by auto
  with Cons.IH[OF rest] show ?case by simp
qed

lemma train_loop_costs_prefix:
  "train_loop E alpha beta cip sip xs st = Inr st' \<Longrightarrow> \<exists>ys. costs st' = costs st @ ys"
proof (induction xs arbitrary: st)
  case Nil
  then show ?case by simp
next
  case (Cons i xs)
  from Cons.prems obtain st1 where step: "train_step E alpha beta cip sip i st = Inr st1"
    and rest: "train_loop E alpha beta cip sip xs st1 = Inr st'"
    by (auto split: sum.splits)
  from train_step_result[OF step] obtain J where "costs st1 = costs st @ [PyFloat J]"
    by blast
  with Cons.IH[OF rest] show ?case by auto
qed

lemma div_200_round_up:
  "((n::nat) + 199) div 200 = n div 200 + (if n mod 200 = 0 then 0 else 1)"
proof -
  define q r where "q = n div 200" and "r = n mod 200"
  have n: "n = 200 * q + r" and r: "r < 200" by (simp_all add: q_def r_def)
  have "(r + 199) div 200 = (if r = 0 then 0 else 1)"
  proof (cases "r = 0")
    case True
    then show ?thesis by simp
  next
    case False
    have "(r + 199) div 200 = 1"
      by (rule div_nat_eqI) (use False r in simp_all)
    with False show ?thesis by simp
  qed
  moreover have "(n + 199) div 200 = q + (r + 199) div 200"
    unfolding n by (simp add: add.assoc)
  ultimately show ?thesis by (simp add: q_def r_def)
qed

lemma checkpoint_count:
  "length (filter (\<lambda>i. i mod 200 = 0) [0..<n]) = (n + 199) div 200"
proof (induction n)
  case 0
  then show ?case by simp
next
  case (Suc n)
  have "(Suc n + 199) div 200 = n div 200 + 1"
    by simp
  then have "(Suc n + 199) div 200 = (n + 199) div 200 + (if n mod 200 = 0 then 1 else 0)"
    by (simp add: div_200_round_up)
  with Suc show ?case by simp
qed

lemma ceiling_div_200: "nat \<lceil>real_of_int N / 200\<rceil> = (nat N + 199) div 200"
proof (cases "0 \<le> N")
  case True
  define n where "n = nat N"
  have N: "N = int n" using True by (simp add: n_def)
  have "\<lceil>real_of_int N / 200\<rceil> = - (- N div 200)"
    using ceiling_divide_eq_div[of N 200] by simp
  also have "\<dots> = int ((n + 199) div 200)"
  proof -
    define q r where "q = n div 200" and "r = n mod 200"
    have n: "n = 200 * q + r" and r: "r < 200" by (simp_all add: q_def r_def)
    have "(- int n) div 200 = - int q + (- int r) div 200"
      unfolding n by (simp add: div_add1_eq)
    moreover have "(- int r) div 200 = (if r = 0 then 0 else - 1)"
    proof (cases "r = 0")
      case True
      then show ?thesis by simp
    next
      case False
      have "(- int r) div 200 = - 1"
        by (rule int_div_pos_eq[where r = "200 - int r"]) (use False r in simp_all)
      with False show ?thesis by simp
    qed
    ultimately show ?thesis
      by (simp add: N div_200_round_up q_def r_def)
  qed
  finally show ?thesis by (simp add: n_def)
next
  case False
  then have "real_of_int N / 200 \<le> 0" by simp
  then have "\<lceil>real_of_int N / 200\<rceil> \<le> 0" by (simp add: ceiling_le_zero)
  with False show ?thesis by simp
qed


lemma train_returns_loop_state:
  assumes "train E ci si alpha beta N lr = Inr (imgs, cs)"
  shows "\<exists>cip sip st. load_and_process_image E CONTENT_IMAGE = Inr cip \<and>
           load_and_process_image E STYLE_IMAGE = Inr sip \<and>
           train_loop E alpha beta cip sip [0..<nat N] (init_state E cip lr) = Inr st \<and>
           imgs = generated_images st \<and> cs = costs st"
  using assms by (auto simp add: train_def bind_err_def split: sum.splits)

lemma train_loop_cost_at:
  assumes run: "train_loop E alpha beta cip sip [0..<n] st0 = Inr st'"
    and i: "i < n" and empty: "costs st0 = []"
  shows "\<exists>st J. train_loop E alpha beta cip sip [0..<i] st0 = Inr st \<and>
           J_total_of E alpha beta cip sip (generated_image st) = Inr J \<and>
           costs st' ! i = PyFloat J"
proof -
  have "[0..<n] = [0..<i] @ [i..<n]"
    using i upt_add_eq_append[of 0 i "n - i"] by simp
  also have "[i..<n] = i # [Suc i..<n]" using i by (simp add: upt_conv_Cons)
  finally have split: "[0..<n] = [0..<i] @ i # [Suc i..<n]" .
  from run obtain st1 where pre: "train_loop E alpha beta cip sip [0..<i] st0 = Inr st1"
    and post: "train_loop E alpha beta cip sip (i # [Suc i..<n]) st1 = Inr st'"
    unfolding split train_loop_append by (auto split: sum.splits)
  from post obtain st2 where step: "train_step E alpha beta cip sip i st1 = Inr st2"
    and rest: "train_loop E alpha beta cip sip [Suc i..<n] st2 = Inr st'"
    by (auto split: sum.splits)
  from train_step_result[OF step] obtain J
    where J: "J_total_of E alpha beta cip sip (generated_image st1) = Inr J"
      and c2: "costs st2 = costs st1 @ [PyFloat J]"
    by blast
  from train_loop_costs_prefix[OF rest] obtain ys where c': "costs st' = costs st2 @ ys"
    by blast
  have len: "length (costs st1) = i"
    using train_loop_lengths[OF pre] empty by simp
  have "costs st' ! i = PyFloat J"
    unfolding c' c2 using len by (simp add: nth_append)
  with pre J show ?thesis by blast
qed

text \<open>
  C1 (as amended). Whenever \<open>train\<close> returns, for any iteration count \<open>N\<close>: the loss
  history has exactly \<open>N\<close> entries, entry \<open>i\<close> is the single float \<open>J_total\<close> computed
  at iteration \<open>i\<close> from the image reached after \<open>i\<close> updates, and the snapshot list
  has \<open>ceil(N / 200)\<close> entries.
\<close>

theorem train_costs_and_snapshots:
  assumes "train E ci si alpha beta N lr = Inr (imgs, cs)"
  shows "length cs = nat N \<and>
         length imgs = nat \<lceil>real_of_int N / 200\<rceil> \<and>
         (\<exists>cip sip.
            load_and_process_image E CONTENT_IMAGE = Inr cip \<and>
            load_and_process_image E STYLE_IMAGE = Inr sip \<and>
            (\<forall>i<nat N. \<exists>st J.
               train_loop E alpha beta cip sip [0..<i] (init_state E cip lr) = Inr st \<and>
               J_total_of E alpha beta cip sip (generated_image st) = Inr J \<and>
               cs ! i = PyFloat J))"
proof -
  from train_returns_loop_state[OF assms] obtain cip sip st
    where c: "load_and_process_image E CONTENT_IMAGE = Inr cip"
      and s: "load_and_process_image E STYLE_IMAGE = Inr sip"
      and run: "train_loop E alpha beta cip sip [0..<nat N] (init_state E cip lr) = Inr st"
      and imgs: "imgs = generated_images st" and cs: "cs = costs st"
    by blast
  have init: "costs (init_state E cip lr) = []" "generated_images (init_state E cip lr) = []"
    by (simp_all add: init_state_def)
  from train_loop_lengths[OF run] init
  have "length cs = nat N" and "length imgs = (nat N + 199) div 200"
    by (simp_all add: imgs cs checkpoint_count)
  moreover have "\<forall>i<nat N. \<exists>st J.
      train_loop E alpha beta cip sip [0..<i] (init_state E cip lr) = Inr st \<and>
      J_total_of E alpha beta cip sip (generated_image st) = Inr J \<and>
      cs ! i = PyFloat J"
    unfolding cs using train_loop_cost_at[OF run _ init(1)] by blast
  ultimately show ?thesis
    using c s by (auto simp add: ceiling_div_200)
qed

lemma paths_differ: "CONTENT_IMAGE \<noteq> STYLE_IMAGE"
  by (simp add: CONTENT_IMAGE_def STYLE_IMAGE_def)

lemma demo_load_content: "load_and_process_image demo_env CONTENT_IMAGE = Inr demo_content"
  by (simp add: load_and_process_image_def demo_env_def paths_differ bind_err_def
      img_to_array_def preprocess_input_def np_expand_dims_def vgg_mean_def demo_content_def
      upt_rec)

lemma demo_load_style: "load_and_process_image demo_env STYLE_IMAGE = Inr demo_style"
  by (simp add: load_and_process_image_def demo_env_def bind_err_def
      img_to_array_def preprocess_input_def np_expand_dims_def vgg_mean_def demo_style_def
      upt_rec)


lemma iadd_channel_ok:
  "3 \<le> length (ref_shape x) \<Longrightarrow> c < ref_shape x ! 2 \<Longrightarrow>
     \<exists>h'. iadd_channel x c v h = (Inr (), h')"
  by (simp add: iadd_channel_def)


lemma deprocess_image_ok:
  assumes "3 \<le> length (ref_shape x)" and "3 \<le> ref_shape x ! 2"
  shows "\<exists>r h'. deprocess_image x h = (Inr r, h')"
proof -
  from assms obtain h1 where 1: "iadd_channel x 0 103.939 h = (Inr (), h1)"
    using iadd_channel_ok[of x 0] by force
  from assms obtain h2 where 2: "iadd_channel x 1 116.779 h1 = (Inr (), h2)"
    using iadd_channel_ok[of x 1] by force
  from assms obtain h3 where 3: "iadd_channel x 2 123.68 h2 = (Inr (), h3)"
    using iadd_channel_ok[of x 2] by force
  show ?thesis
    by (simp only: deprocess_image_def 1 2 3 prod.case sum.case) blast
qed



lemma display_image_ok:
  assumes "ref_shape x = [1, H, W, C]" and "3 \<le> C"
  shows "fst (display_image x h) = Inr ()"
proof -
  have "\<exists>r h'. deprocess_image (x\<lparr>ref_shape := tl (ref_shape x)\<rparr>) h = (Inr r, h')"
    by (rule deprocess_image_ok) (simp_all add: assms)
  then show ?thesis
    by (auto simp add: display_image_def assms)
qed


lemma demo_content_cost_zero:
  "content_cost demo_env demo_content demo_content = Inr (Finite 0)"
proof -
  have "content_model demo_env demo_content = Inr demo_content"
    by (simp add: demo_env_def)
  from content_cost_same_shape[OF this this refl]
  show ?thesis by (simp add: demo_content_def wf_array_def)
qed

lemma demo_spec_style_value:
  "spec_style_cost style_coeff [demo_style] [demo_content] = 11700946129 / 36000"
  by (simp add: spec_style_cost_def style_coeff_def spec_layer_style_cost_def Let_def
      spec_gram_def spec_unrolled_def demo_style_def demo_content_def upt_rec
      numeral_3_eq_3 numeral_2_eq_2)

lemma demo_style_cost_start:
  "style_cost demo_env demo_style demo_content = Inr (Finite (11700946129 / 36000))"
proof -
  have "style_cost demo_env demo_style demo_content
          = Inr (Finite (spec_style_cost style_coeff [demo_style] [demo_content]))"
    by (rule style_cost_weighted_gram_sum_general)
       (simp_all add: demo_env_def activation_pair_ok_def wf_array_def style_coeff_def
          demo_style_def demo_content_def)
  then show ?thesis by (simp only: demo_spec_style_value)
qed

lemma demo_J_total:
  "J_total_of demo_env 10 40 demo_content demo_style demo_content
     = Inr (Finite (11700946129 / 900))"
  by (simp add: J_total_of_def bind_err_def demo_content_cost_zero demo_style_cost_start)

lemma demo_display: "fst (display_image \<lparr>ref_shape = shape demo_content, ref_buf = 0\<rparr> h) = Inr ()"
  by (rule display_image_ok[where H = 1 and W = 1 and C = 3]) (simp_all add: demo_content_def)

lemma demo_train_step:
  assumes "generated_image st = demo_content"
  shows "train_step demo_env 10 40 demo_content demo_style i st =
           Inr \<lparr>generated_image = demo_content, optimizer = optimizer st,
                generated_images =
                  generated_images st @ (if i mod 200 = 0 then [demo_content] else []),
                costs = costs st @ [PyFloat (Finite (11700946129 / 900))]\<rparr>"
proof -
  have sel: "tape_gradient demo_env = (\<lambda>L x. x)"
    "adam_apply demo_env = (\<lambda>opt grads x. (opt, x))"
    by (simp_all add: demo_env_def)
  show ?thesis
    by (simp add: train_step_def bind_err_def assms demo_J_total sel demo_display)
qed

lemma demo_train_two:
  "train demo_env ci si 10 40 2 5 =
     Inr ([demo_content],
          [PyFloat (Finite (11700946129 / 900)), PyFloat (Finite (11700946129 / 900))])"
  by (simp add: train_def bind_err_def demo_load_content demo_load_style init_state_def
      upt_rec demo_train_step)

lemma demo_train_one:
  "train demo_env ci si 10 40 1 5 =
     Inr ([demo_content], [PyFloat (Finite (11700946129 / 900))])"
  by (simp add: train_def bind_err_def demo_load_content demo_load_style init_state_def
      upt_rec demo_train_step)

lemma demo_spec_record:
  "spec_loss_record demo_env 10 40 demo_content demo_style 0 demo_content =
     Inr (PyTuple [PyInt 0, PyFloat (Finite (11700946129 / 900)),
                   PyFloat (Finite (11700946129 / 36000)), PyFloat (Finite 0)])"
  by (simp add: spec_loss_record_def bind_err_def demo_content_cost_zero demo_style_cost_start)














theorem train_costs_and_snapshots_witness:
  "train demo_env () () 10 40 2 5 =
     Inr ([demo_content],
          [PyFloat (Finite (11700946129 / 900)), PyFloat (Finite (11700946129 / 900))]) \<and>
   length [PyFloat (Finite (11700946129 / 900)), PyFloat (Finite (11700946129 / 900))] = nat 2 \<and>
   length [demo_content] = nat \<lceil>real_of_int 2 / 200\<rceil> \<and>
   (\<exists>st J. train_loop demo_env 10 40 demo_content demo_style [0..<1]
               (init_state demo_env demo_content 5) = Inr st \<and>
           J_total_of demo_env 10 40 demo_content demo_style (generated_image st) = Inr J \<and>
           [PyFloat (Finite (11700946129 / 900)), PyFloat (Finite (11700946129 / 900))] ! 1
             = PyFloat J)"
proof -
  let ?cs = "[PyFloat (Finite (11700946129 / 900)), PyFloat (Finite (11700946129 / 900))]"
  note run = demo_train_two [of "()" "()"]
  note inst = train_costs_and_snapshots [OF run]
  from inst have len: "length ?cs = nat 2"
    by (rule conjunct1)
  from inst have snaps: "length [demo_content] = nat \<lceil>real_of_int 2 / 200\<rceil>"
    by (rule conjunct2 [THEN conjunct1])
  from inst obtain cip sip
    where c: "load_and_process_image demo_env CONTENT_IMAGE = Inr cip"
      and s: "load_and_process_image demo_env STYLE_IMAGE = Inr sip"
      and each: "\<forall>i<nat 2. \<exists>st J.
          train_loop demo_env 10 40 cip sip [0..<i] (init_state demo_env cip 5) = Inr st \<and>
          J_total_of demo_env 10 40 cip sip (generated_image st) = Inr J \<and>
          ?cs ! i = PyFloat J"
    by (elim exE conjE) (rule that, assumption+)
  have cip: "cip = demo_content" using c demo_load_content by simp
  have sip: "sip = demo_style" using s demo_load_style by simp
  have "(1::nat) < nat 2" by simp
  with each have "\<exists>st J.
      train_loop demo_env 10 40 cip sip [0..<1] (init_state demo_env cip 5) = Inr st \<and>
      J_total_of demo_env 10 40 cip sip (generated_image st) = Inr J \<and>
      ?cs ! 1 = PyFloat J"
    by blast
  then have at: "\<exists>st J. train_loop demo_env 10 40 demo_content demo_style [0..<1]
               (init_state demo_env demo_content 5) = Inr st \<and>
           J_total_of demo_env 10 40 demo_content demo_style (generated_image st) = Inr J \<and>
           ?cs ! 1 = PyFloat J"
    unfolding cip sip .
  show ?thesis using run len snaps at by (intro conjI)
qed

text \<open>
  C1 as stated fails: after one iteration the history holds the float \<open>J_total\<close>, not
  the tuple (iteration, \<open>J_total\<close>, \<open>J_style\<close>, \<open>J_content\<close>).
\<close>

theorem train_loss_record_counterexample:
  "load_and_process_image demo_env CONTENT_IMAGE = Inr demo_content \<and>
   load_and_process_image demo_env STYLE_IMAGE = Inr demo_style \<and>
   train demo_env () () 10 40 1 5 =
     Inr ([demo_content], [PyFloat (Finite (11700946129 / 900))]) \<and>
   spec_loss_record demo_env 10 40 demo_content demo_style 0 demo_content =
     Inr (PyTuple [PyInt 0, PyFloat (Finite (11700946129 / 900)),
                   PyFloat (Finite (11700946129 / 36000)), PyFloat (Finite 0)]) \<and>
   PyFloat (Finite (11700946129 / 900)) \<noteq>
     PyTuple [PyInt 0, PyFloat (Finite (11700946129 / 900)),
              PyFloat (Finite (11700946129 / 36000)), PyFloat (Finite 0)]"
  using demo_load_content demo_load_style demo_train_one [of "()" "()"] demo_spec_record
  by simp

lemma demo_train_zero: "train demo_env ci si 10 40 0 5 = Inr ([], [])"
  by (simp add: train_def bind_err_def demo_load_content demo_load_style init_state_def)

text \<open>
  C2 as stated fails: with no iterations \<open>train\<close> returns two empty lists; the content
  image is not among the returned values.
\<close>

theorem train_zero_iterations_counterexample:
  "load_and_process_image demo_env CONTENT_IMAGE = Inr demo_content \<and>
   train demo_env () () 10 40 0 5 = Inr ([], []) \<and>
   train demo_env () () 10 40 0 5 \<noteq> Inr ([demo_content], [])"
  using demo_load_content demo_train_zero [of "()" "()"] by simp

text \<open>
  C2 (as amended). When both images load, \<open>train\<close> with \<open>Iterations = 0\<close> returns an
  empty snapshot list and an empty loss history; the loop leaves the initial state, whose
  generated image is the preprocessed content image, untouched.
\<close>

theorem train_zero_iterations:
  assumes "load_and_process_image E CONTENT_IMAGE = Inr cip"
    and "load_and_process_image E STYLE_IMAGE = Inr sip"
  shows "train E ci si alpha beta 0 lr = Inr ([], []) \<and>
         train_loop E alpha beta cip sip [0..<nat 0] (init_state E cip lr)
           = Inr (init_state E cip lr) \<and>
         generated_image (init_state E cip lr) = cip"
  using assms by (simp add: train_def bind_err_def init_state_def)

theorem train_zero_iterations_witness:
  "load_and_process_image demo_env CONTENT_IMAGE = Inr demo_content \<and>
   load_and_process_image demo_env STYLE_IMAGE = Inr demo_style \<and>
   train demo_env () () 10 40 0 5 = Inr ([], []) \<and>
   generated_image (init_state demo_env demo_content 5) = demo_content"
  using train_zero_iterations [OF demo_load_content demo_load_style, of "()" "()" 10 40 5]
    demo_load_content demo_load_style
  by blast










lemma content_cost_load_img: "content_cost (E\<lparr>load_img := f\<rparr>) = content_cost E"
  by (intro ext) (simp add: content_cost_def)

lemma style_cost_load_img: "style_cost (E\<lparr>load_img := f\<rparr>) = style_cost E"
  by (intro ext) (simp add: style_cost_def)

lemma J_total_of_load_img: "J_total_of (E\<lparr>load_img := f\<rparr>) = J_total_of E"
  by (intro ext) (simp add: J_total_of_def content_cost_load_img style_cost_load_img)

lemma train_step_load_img: "train_step (E\<lparr>load_img := f\<rparr>) = train_step E"
  by (intro ext) (simp add: train_step_def J_total_of_load_img)

lemma train_loop_load_img:
  "train_loop (E\<lparr>load_img := f\<rparr>) alpha beta cip sip xs st
     = train_loop E alpha beta cip sip xs st"
  by (induction xs arbitrary: st) (simp_all add: train_step_load_img split: sum.splits)

lemma init_state_load_img: "init_state (E\<lparr>load_img := f\<rparr>) = init_state E"
  by (intro ext) (simp add: init_state_def)

lemma load_and_process_image_load_img:
  "f p = f' p \<Longrightarrow> load_and_process_image (E\<lparr>load_img := f\<rparr>) p
      = load_and_process_image (E\<lparr>load_img := f'\<rparr>) p"
  by (simp add: load_and_process_image_def)

text \<open>
  C6. \<open>train\<close> ignores its \<open>content_image\<close> and \<open>style_image\<close> arguments: two calls
  that differ only in them return the same result, and the images come from the decoder
  at the two fixed paths \<open>CONTENT_IMAGE\<close> and \<open>STYLE_IMAGE\<close> only.
\<close>

theorem train_ignores_image_arguments:
  "train E content_image style_image alpha beta Iterations lr
     = train E content_image' style_image' alpha beta Iterations lr \<and>
   (f CONTENT_IMAGE = f' CONTENT_IMAGE \<and> f STYLE_IMAGE = f' STYLE_IMAGE \<longrightarrow>
      train (E\<lparr>load_img := f\<rparr>) content_image style_image alpha beta Iterations lr
        = train (E\<lparr>load_img := f'\<rparr>) content_image' style_image' alpha beta Iterations lr)"
proof (intro conjI impI)
  show "train E content_image style_image alpha beta Iterations lr
     = train E content_image' style_image' alpha beta Iterations lr"
    by (simp add: train_def)
next
  assume "f CONTENT_IMAGE = f' CONTENT_IMAGE \<and> f STYLE_IMAGE = f' STYLE_IMAGE"
  then have fc: "f CONTENT_IMAGE = f' CONTENT_IMAGE" and fs: "f STYLE_IMAGE = f' STYLE_IMAGE"
    by simp_all
  have c: "load_and_process_image (E\<lparr>load_img := f\<rparr>) CONTENT_IMAGE
        = load_and_process_image (E\<lparr>load_img := f'\<rparr>) CONTENT_IMAGE"
    using fc by (rule load_and_process_image_load_img)
  have s: "load_and_process_image (E\<lparr>load_img := f\<rparr>) STYLE_IMAGE
        = load_and_process_image (E\<lparr>load_img := f'\<rparr>) STYLE_IMAGE"
    using fs by (rule load_and_process_image_load_img)
  show "train (E\<lparr>load_img := f\<rparr>) content_image style_image alpha beta Iterations lr
        = train (E\<lparr>load_img := f'\<rparr>) content_image' style_image' alpha beta Iterations lr"
    by (simp only: train_def c s train_loop_load_img init_state_load_img)
qed


theorem train_ignores_image_arguments_witness:
  "train (demo_env\<lparr>load_img := (load_img demo_env)(''other.jpg'' := Inl ValueError)\<rparr>)
       ''other.jpg'' ''other.jpg'' 10 40 2 5
     = Inr ([demo_content],
            [PyFloat (Finite (11700946129 / 900)), PyFloat (Finite (11700946129 / 900))])"
proof -
  let ?f = "load_img demo_env"
  let ?f' = "(load_img demo_env)(''other.jpg'' := Inl ValueError)"
  have pre: "?f CONTENT_IMAGE = ?f' CONTENT_IMAGE \<and> ?f STYLE_IMAGE = ?f' STYLE_IMAGE"
    by (simp add: CONTENT_IMAGE_def STYLE_IMAGE_def)
  have imp: "?f CONTENT_IMAGE = ?f' CONTENT_IMAGE \<and> ?f STYLE_IMAGE = ?f' STYLE_IMAGE \<longrightarrow>
      train (demo_env\<lparr>load_img := ?f\<rparr>) () () 10 40 2 5
        = train (demo_env\<lparr>load_img := ?f'\<rparr>) ''other.jpg'' ''other.jpg'' 10 40 2 5"
    by (rule conjunct2 [OF train_ignores_image_arguments])
  have eq: "train (demo_env\<lparr>load_img := ?f\<rparr>) () () 10 40 2 5
        = train (demo_env\<lparr>load_img := ?f'\<rparr>) ''other.jpg'' ''other.jpg'' 10 40 2 5"
    using imp pre by (rule mp)
  have same: "demo_env\<lparr>load_img := ?f\<rparr> = demo_env" by simp
  show ?thesis
    unfolding eq [symmetric] same by (rule demo_train_two)
qed

subsection \<open>Preprocessing and deprocessing\<close>

lemma iadd_channel_result:
  assumes "3 \<le> length (ref_shape x)" and "c < ref_shape x ! 2"
  shows "iadd_channel x c v h =
           (Inr (), h(ref_buf x :=
              map (\<lambda>k. h (ref_buf x) ! k + (if axis2 (ref_shape x) k = c then v else 0))
                  [0..<length (h (ref_buf x))]))"
  using assms by (simp add: iadd_channel_def)

lemma vgg_mean_split:
  "(if c = 0 then 103.939 else 0) + (if c = Suc 0 then 116.779 else 0)
     + (if c = 2 then 123.68 else 0) = vgg_mean c"
  by (simp add: vgg_mean_def)

lemma deprocess_image_result:
  assumes rank: "3 \<le> length (ref_shape x)" and ch: "3 \<le> ref_shape x ! 2"
  shows "deprocess_image x h =
           (Inr \<lparr>shape = ref_shape x,
                 data = map (\<lambda>v. astype_uint8 (np_clip v 0 255))
                   (flip_axis2 (ref_shape x)
                      (map (\<lambda>k. h (ref_buf x) ! k + vgg_mean (axis2 (ref_shape x) k))
                           [0..<length (h (ref_buf x))]))\<rparr>,
            h(ref_buf x := map (\<lambda>k. h (ref_buf x) ! k + vgg_mean (axis2 (ref_shape x) k))
                               [0..<length (h (ref_buf x))]))"
proof -
  let ?a = "ref_buf x" and ?sh = "ref_shape x"
  let ?n = "length (h ?a)"
  define b1 where "b1 = map (\<lambda>k. h ?a ! k + (if axis2 ?sh k = 0 then 103.939 else 0)) [0..<?n]"
  define b2 where "b2 = map (\<lambda>k. b1 ! k + (if axis2 ?sh k = 1 then 116.779 else 0)) [0..<?n]"
  define b3 where "b3 = map (\<lambda>k. b2 ! k + (if axis2 ?sh k = 2 then 123.68 else 0)) [0..<?n]"
  have c0: "0 < ?sh ! 2" and c1: "1 < ?sh ! 2" and c2: "2 < ?sh ! 2" using ch by simp_all
  have 1: "iadd_channel x 0 103.939 h = (Inr (), h(?a := b1))"
    unfolding b1_def using rank c0 by (rule iadd_channel_result)
  have 2: "iadd_channel x 1 116.779 (h(?a := b1)) = (Inr (), h(?a := b2))"
    using iadd_channel_result[OF rank c1, of "116.779" "h(?a := b1)"]
    by (simp add: b2_def b1_def)
  have 3: "iadd_channel x 2 123.68 (h(?a := b2)) = (Inr (), h(?a := b3))"
    using iadd_channel_result[OF rank c2, of "123.68" "h(?a := b2)"]
    by (simp add: b3_def b2_def)
  have b3: "b3 = map (\<lambda>k. h ?a ! k + vgg_mean (axis2 ?sh k)) [0..<?n]"
    unfolding b3_def
  proof (rule map_cong[OF refl])
    fix k assume "k \<in> set [0..<?n]"
    then have k: "k < ?n" by simp
    have "b2 ! k + (if axis2 ?sh k = 2 then 123.68 else 0)
            = h ?a ! k + ((if axis2 ?sh k = 0 then 103.939 else 0)
                + (if axis2 ?sh k = Suc 0 then 116.779 else 0)
                + (if axis2 ?sh k = 2 then 123.68 else 0))"
      using k by (simp add: b2_def b1_def)
    then show "b2 ! k + (if axis2 ?sh k = 2 then 123.68 else 0)
                 = h ?a ! k + vgg_mean (axis2 ?sh k)"
      by (simp only: vgg_mean_split)
  qed
  have "deprocess_image x h =
          (Inr \<lparr>shape = ?sh,
                data = map (\<lambda>v. astype_uint8 (np_clip v 0 255)) (flip_axis2 ?sh b3)\<rparr>,
           h(?a := b3))"
    by (simp only: deprocess_image_def 1 2 3 prod.case sum.case fun_upd_same)
  then show ?thesis by (simp only: b3)
qed


lemma axis2_rank3: "axis2 [H, W, C] k = k mod C"
  by (simp add: axis2_def numeral_3_eq_3 numeral_2_eq_2)

lemma pixel_index_bound:
  assumes "p < n" and "c < (C::nat)"
  shows "p * C + c < n * C"
proof -
  have "p * C + c < Suc p * C" using assms(2) by simp
  also have "\<dots> \<le> n * C" using assms(1) by (simp only: mult_le_mono1 Suc_leI)
  finally show ?thesis .
qed

text \<open>
  C10. \<open>deprocess_image\<close> changes its argument: called on a reference to an array of
  shape \<open>H\<close> by \<open>W\<close> by \<open>C\<close> with at least three channels, it returns normally and
  leaves the caller's buffer with 103.939, 116.779 and 123.68 added to channels 0, 1 and
  2 of every pixel (further channels and all other buffers untouched); the returned
  \<open>uint8\<close> array is the channel-reversed, clipped copy of that updated buffer. Unless
  the array is empty, the buffer differs from what it was.
\<close>

theorem deprocess_image_mutates_argument:
  assumes sh: "ref_shape x = [H, W, C]" and ch: "3 \<le> C"
    and len: "length (h (ref_buf x)) = H * W * C"
  shows "\<exists>r h'. deprocess_image x h = (Inr r, h') \<and>
           (\<forall>a. a \<noteq> ref_buf x \<longrightarrow> h' a = h a) \<and>
           length (h' (ref_buf x)) = H * W * C \<and>
           (\<forall>p<H * W.
              h' (ref_buf x) ! (p * C) = h (ref_buf x) ! (p * C) + 103.939 \<and>
              h' (ref_buf x) ! (p * C + 1) = h (ref_buf x) ! (p * C + 1) + 116.779 \<and>
              h' (ref_buf x) ! (p * C + 2) = h (ref_buf x) ! (p * C + 2) + 123.68 \<and>
              (\<forall>c. 3 \<le> c \<and> c < C \<longrightarrow>
                 h' (ref_buf x) ! (p * C + c) = h (ref_buf x) ! (p * C + c))) \<and>
           r = \<lparr>shape = [H, W, C],
                 data = map (\<lambda>v. astype_uint8 (np_clip v 0 255))
                            (flip_axis2 [H, W, C] (h' (ref_buf x)))\<rparr> \<and>
           (0 < H * W \<longrightarrow> h' (ref_buf x) \<noteq> h (ref_buf x))"
proof -
  let ?a = "ref_buf x"
  define b where "b = map (\<lambda>k. h ?a ! k + vgg_mean (k mod C)) [0..<H * W * C]"
  have run: "deprocess_image x h =
      (Inr \<lparr>shape = [H, W, C],
            data = map (\<lambda>v. astype_uint8 (np_clip v 0 255)) (flip_axis2 [H, W, C] b)\<rparr>,
       h(?a := b))"
    using deprocess_image_result[of x h] ch
    by (simp add: sh len axis2_rank3 b_def numeral_2_eq_2)
  have at: "b ! (p * C + c) = h ?a ! (p * C + c) + vgg_mean c" if "p < H * W" "c < C" for p c
  proof -
    have "p * C + c < H * W * C" using that by (rule pixel_index_bound)
    then show ?thesis using that(2) by (simp add: b_def)
  qed
  have px: "b ! (p * C) = h ?a ! (p * C) + 103.939 \<and>
            b ! (p * C + 1) = h ?a ! (p * C + 1) + 116.779 \<and>
            b ! (p * C + 2) = h ?a ! (p * C + 2) + 123.68 \<and>
            (\<forall>c. 3 \<le> c \<and> c < C \<longrightarrow> b ! (p * C + c) = h ?a ! (p * C + c))"
    if p: "p < H * W" for p
  proof -
    have "0 < C" "1 < C" "2 < C" using ch by simp_all
    from at[OF p this(1)] at[OF p this(2)] at[OF p this(3)]
    have "b ! (p * C) = h ?a ! (p * C) + 103.939"
      and "b ! (p * C + 1) = h ?a ! (p * C + 1) + 116.779"
      and "b ! (p * C + 2) = h ?a ! (p * C + 2) + 123.68"
      by (simp_all add: vgg_mean_def)
    moreover have "b ! (p * C + c) = h ?a ! (p * C + c)" if "3 \<le> c" "c < C" for c
      using at[OF p that(2)] that(1) by (simp add: vgg_mean_def)
    ultimately show ?thesis by blast
  qed
  have changed: "b \<noteq> h ?a" if "0 < H * W"
  proof
    assume "b = h ?a"
    moreover have "b ! (0 * C) = h ?a ! (0 * C) + 103.939"
      using px[OF that] by blast
    ultimately show False by simp
  qed
  have "length b = H * W * C" by (simp add: b_def)
  with run px changed show ?thesis by (intro exI[of _ "h(?a := b)"] exI) auto
qed


lemma flip_index_facts:
  fixes k m C :: nat
  assumes k: "k < m * C"
  shows "k + (C - 1 - k mod C) - k mod C = k - k mod C + (C - 1 - k mod C)"
    and "k - k mod C + (C - 1 - k mod C) < m * C"
    and "(k - k mod C + (C - 1 - k mod C)) mod C = C - 1 - k mod C"
    and "(k - k mod C + (C - 1 - k mod C)) - (C - 1 - k mod C) + (C - 1 - (C - 1 - k mod C)) = k"
proof -
  have Cpos: "0 < C" using k by (cases C) simp_all
  define q c where "q = k div C" and "c = k mod C"
  have kq: "k = q * C + c" and c: "c < C" using Cpos by (simp_all add: q_def c_def)
  have q: "q < m"
    using k Cpos by (simp add: q_def less_mult_imp_div_less)
  have base: "k - c = q * C" using kq by simp
  show "k + (C - 1 - k mod C) - k mod C = k - k mod C + (C - 1 - k mod C)"
    unfolding c_def[symmetric] using kq by simp
  have "q * C + (C - 1 - c) < m * C"
    by (rule pixel_index_bound) (use q c in simp_all)
  then show "k - k mod C + (C - 1 - k mod C) < m * C"
    unfolding c_def[symmetric] base .
  have d: "C - 1 - c < C" using Cpos by simp
  show "(k - k mod C + (C - 1 - k mod C)) mod C = C - 1 - k mod C"
    unfolding c_def[symmetric] base using d by simp
  have "C - 1 - (C - 1 - c) = c" using c by simp
  then show "(k - k mod C + (C - 1 - k mod C)) - (C - 1 - k mod C) + (C - 1 - (C - 1 - k mod C)) = k"
    unfolding c_def[symmetric] base using kq by simp
qed

lemma preprocess_input_rank3:
  assumes "shape raw = [H, W, C]" and "3 \<le> C"
  shows "preprocess_input raw =
           Inr \<lparr>shape = [H, W, C],
                data = map (\<lambda>k. data raw ! (k - k mod C + (C - 1 - k mod C)) - vgg_mean (k mod C))
                           [0..<length (data raw)]\<rparr>"
  using assms by (simp add: preprocess_input_def)

lemma deprocess_preprocessed_data:
  assumes sh: "shape raw = [H, W, C]" and ch: "3 \<le> C" and wf: "wf_array raw"
    and x: "preprocess_input raw = Inr x" and ha: "h a = data x"
  shows "fst (deprocess_image \<lparr>ref_shape = shape x, ref_buf = a\<rparr> h) =
           Inr \<lparr>shape = shape raw,
                data = map (\<lambda>v. astype_uint8 (np_clip v 0 255)) (data raw)\<rparr>"
proof -
  let ?n = "H * W * C"
  let ?fl = "\<lambda>k. k - k mod C + (C - 1 - k mod C)"
  have n: "length (data raw) = ?n" using wf sh by (simp add: wf_array_def)
  have xd: "x = \<lparr>shape = [H, W, C],
      data = map (\<lambda>k. data raw ! ?fl k - vgg_mean (k mod C)) [0..<?n]\<rparr>"
    using x preprocess_input_rank3[OF sh ch] by (simp add: n)
  have shx: "shape x = [H, W, C]" and lenx: "length (data x) = ?n"
    by (simp_all add: xd)
  define b where "b = map (\<lambda>k. h a ! k + vgg_mean (k mod C)) [0..<?n]"
  have run: "deprocess_image \<lparr>ref_shape = shape x, ref_buf = a\<rparr> h =
      (Inr \<lparr>shape = [H, W, C],
            data = map (\<lambda>v. astype_uint8 (np_clip v 0 255)) (flip_axis2 [H, W, C] b)\<rparr>,
       h(a := b))"
    using deprocess_image_result[of "\<lparr>ref_shape = shape x, ref_buf = a\<rparr>" h] ch
    by (simp add: shx ha lenx axis2_rank3 b_def numeral_2_eq_2)
  have bk: "b ! k = data raw ! ?fl k" if "k < ?n" for k
    using that by (simp add: b_def ha xd)
  have "flip_axis2 [H, W, C] b = map (\<lambda>k. data raw ! k) [0..<?n]"
    unfolding flip_axis2_def
  proof (rule map_cong)
    show "[0..<length b] = [0..<?n]" by (simp add: b_def)
  next
    fix k assume "k \<in> set [0..<?n]"
    then have k: "k < H * W * C" by simp
    note f = flip_index_facts[OF k]
    have "b ! (k + ([H, W, C] ! 2 - 1 - axis2 [H, W, C] k) * prod_list (drop 3 [H, W, C])
              - axis2 [H, W, C] k * prod_list (drop 3 [H, W, C]))
            = b ! ?fl k"
      by (simp add: axis2_rank3 numeral_2_eq_2 f(1))
    also have "\<dots> = data raw ! ?fl (?fl k)"
      using f(2) by (rule bk)
    also have "?fl (?fl k) = k"
      by (simp only: f(3) f(4))
    finally show "b ! (k + ([H, W, C] ! 2 - 1 - axis2 [H, W, C] k) * prod_list (drop 3 [H, W, C])
              - axis2 [H, W, C] k * prod_list (drop 3 [H, W, C])) = data raw ! k" .
  qed
  also have "\<dots> = data raw"
    using n by (metis map_nth)
  finally have "flip_axis2 [H, W, C] b = data raw" .
  then show ?thesis by (simp add: run sh)
qed

lemma uint8_roundtrip: "astype_uint8 (np_clip (real (unat (w :: 8 word))) 0 255) = w"
proof -
  define n where "n = unat w"
  have "n < 256" using unsigned_less[of w] by (simp add: n_def)
  then have "np_clip (real n) 0 255 = real n"
    by (simp add: np_clip_def)
  then have "astype_uint8 (np_clip (real n) 0 255) = word_of_nat n"
    by (simp add: astype_uint8_def)
  then show ?thesis by (simp add: n_def)
qed


lemma img_to_array_roundtrip:
  "\<lparr>shape = shape (img_to_array img),
     data = map (\<lambda>v. astype_uint8 (np_clip v 0 255)) (data (img_to_array img))\<rparr> = img"
proof -
  have "map (\<lambda>v. astype_uint8 (np_clip v 0 255)) (map (\<lambda>w. real (unat w)) (data img))
          = data img"
    unfolding map_map by (rule map_idI) (simp only: o_apply uint8_roundtrip)
  then show ?thesis by (simp only: img_to_array_def ndarray.simps) simp
qed

lemma unat_astype_uint8_clip:
  "real (unat (astype_uint8 (np_clip v 0 255))) = of_int \<lfloor>np_clip v 0 255\<rfloor>"
proof -
  define y where "y = np_clip v 0 255"
  have y: "0 \<le> y" "y \<le> 255" by (simp_all add: y_def np_clip_def)
  define n where "n = nat \<lfloor>y\<rfloor>"
  have fl: "\<lfloor>y\<rfloor> = int n" using y by (simp add: n_def)
  have "\<lfloor>y\<rfloor> \<le> 255" using y(2) by (simp add: floor_le_iff)
  then have n: "n < 256" using fl by simp
  have "astype_uint8 y = word_of_nat n"
    using y(1) by (simp add: astype_uint8_def fl)
  then have "unat (astype_uint8 y) = n"
    using n by (simp add: unat_of_nat)
  then show ?thesis unfolding y_def[symmetric] by (simp add: fl)
qed

lemma flip_axis2_rank3:
  assumes "length b = H * W * C"
  shows "flip_axis2 [H, W, C] b
           = map (\<lambda>k. b ! (k - k mod C + (C - 1 - k mod C))) [0..<H * W * C]"
  unfolding flip_axis2_def
proof (rule map_cong)
  show "[0..<length b] = [0..<H * W * C]" using assms by simp
next
  fix k assume "k \<in> set [0..<H * W * C]"
  then have k: "k < H * W * C" by simp
  show "b ! (k + ([H, W, C] ! 2 - 1 - axis2 [H, W, C] k) * prod_list (drop 3 [H, W, C])
              - axis2 [H, W, C] k * prod_list (drop 3 [H, W, C]))
          = b ! (k - k mod C + (C - 1 - k mod C))"
    by (simp add: axis2_rank3 numeral_2_eq_2 flip_index_facts(1)[OF k])
qed

lemma preprocess_deprocessed_data:
  assumes ch: "3 \<le> C" and len: "length (h a) = H * W * C"
  shows "\<exists>r h' x'. deprocess_image \<lparr>ref_shape = [H, W, C], ref_buf = a\<rparr> h = (Inr r, h') \<and>
           preprocess_input (img_to_array r) = Inr x' \<and> shape x' = [H, W, C] \<and>
           length (data x') = H * W * C \<and>
           (\<forall>k<H * W * C.
              data x' ! k = of_int \<lfloor>np_clip (h a ! k + vgg_mean (k mod C)) 0 255\<rfloor>
                            - vgg_mean (k mod C))"
proof -
  let ?n = "H * W * C"
  let ?fl = "\<lambda>k. k - k mod C + (C - 1 - k mod C)"
  let ?g = "\<lambda>v. astype_uint8 (np_clip v 0 255)"
  define b where "b = map (\<lambda>k. h a ! k + vgg_mean (k mod C)) [0..<?n]"
  define r where "r = \<lparr>shape = [H, W, C], data = map ?g (flip_axis2 [H, W, C] b)\<rparr>"
  have lb: "length b = ?n" by (simp add: b_def)
  have run: "deprocess_image \<lparr>ref_shape = [H, W, C], ref_buf = a\<rparr> h = (Inr r, h(a := b))"
    using deprocess_image_result[of "\<lparr>ref_shape = [H, W, C], ref_buf = a\<rparr>" h] ch
    by (simp add: len axis2_rank3 b_def r_def numeral_2_eq_2)
  have rd: "data r = map (\<lambda>k. ?g (b ! ?fl k)) [0..<?n]"
    by (simp add: r_def flip_axis2_rank3[OF lb] comp_def)
  define x' where "x' = \<lparr>shape = [H, W, C],
      data = map (\<lambda>k. data (img_to_array r) ! ?fl k - vgg_mean (k mod C))
                 [0..<length (data (img_to_array r))]\<rparr>"
  have pre: "preprocess_input (img_to_array r) = Inr x'"
    unfolding x'_def
    by (rule preprocess_input_rank3) (simp_all add: img_to_array_def r_def ch)
  have lr: "length (data (img_to_array r)) = ?n"
    by (simp add: img_to_array_def rd)
  have imgn: "data (img_to_array r) ! j = real (unat (?g (b ! ?fl j)))" if "j < ?n" for j
    using that by (simp add: img_to_array_def rd)
  have xn: "data x' ! j = data (img_to_array r) ! ?fl j - vgg_mean (j mod C)" if "j < ?n" for j
    using that by (simp add: x'_def lr)
  have bn: "b ! j = h a ! j + vgg_mean (j mod C)" if "j < ?n" for j
    using that by (simp add: b_def)
  have at: "data x' ! k = of_int \<lfloor>np_clip (h a ! k + vgg_mean (k mod C)) 0 255\<rfloor>
                            - vgg_mean (k mod C)"
    if k: "k < ?n" for k
  proof -
    note f = flip_index_facts[OF k]
    have ff: "?fl (?fl k) = k" by (simp only: f(3) f(4))
    have "data x' ! k = data (img_to_array r) ! ?fl k - vgg_mean (k mod C)"
      using k by (rule xn)
    also have "data (img_to_array r) ! ?fl k = real (unat (?g (b ! ?fl (?fl k))))"
      using f(2) by (rule imgn)
    also have "b ! ?fl (?fl k) = h a ! k + vgg_mean (k mod C)"
      unfolding ff using k by (rule bn)
    finally show ?thesis by (simp only: unat_astype_uint8_clip)
  qed
  have "shape x' = [H, W, C]" and "length (data x') = ?n"
    by (simp_all add: x'_def lr)
  with run pre at show ?thesis by blast
qed

lemma floor_clip_close:
  assumes "0 \<le> v + m" and "v + m \<le> 255"
  shows "v - 1 < of_int \<lfloor>np_clip (v + m) 0 255\<rfloor> - m"
    and "of_int \<lfloor>np_clip (v + m) 0 255\<rfloor> - m \<le> (v :: real)"
proof -
  have c: "np_clip (v + m) 0 255 = v + m" using assms by (simp add: np_clip_def)
  show "v - 1 < of_int \<lfloor>np_clip (v + m) 0 255\<rfloor> - m"
    unfolding c by linarith
  show "of_int \<lfloor>np_clip (v + m) 0 255\<rfloor> - m \<le> v"
    unfolding c by linarith
qed

text \<open>
  C9. Preprocessing and deprocessing undo each other up to clipping and truncation. For
  every raw array of shape \<open>H\<close> by \<open>W\<close> by \<open>C\<close> (three channels or more),
  \<open>deprocess_image\<close> applied to \<open>preprocess_input raw\<close> returns each raw value clipped
  to \<open>[0, 255]\<close> and truncated to \<open>uint8\<close>; for a decoded \<open>uint8\<close> image,
  \<open>deprocess_image\<close> applied to the image part of \<open>load_and_process_image\<close>'s result
  returns the original pixels exactly. In the other direction, preprocessing the result
  of \<open>deprocess_image\<close> gives back every value that needed no clipping to within one
  unit below (the truncation).
\<close>

theorem deprocess_inverts_preprocess:
  assumes sh: "shape raw = [H, W, C]" and ch: "3 \<le> C" and wf: "wf_array raw"
  shows "(\<exists>x. preprocess_input raw = Inr x \<and> shape x = shape raw \<and>
            (\<forall>h a. h a = data x \<longrightarrow>
               fst (deprocess_image \<lparr>ref_shape = shape x, ref_buf = a\<rparr> h) =
                 Inr \<lparr>shape = shape raw,
                      data = map (\<lambda>v. astype_uint8 (np_clip v 0 255)) (data raw)\<rparr>)) \<and>
         (\<forall>E p img. load_img E p = Inr img \<and> img_to_array img = raw \<longrightarrow>
            (\<exists>y. load_and_process_image E p = Inr y \<and> shape y = 1 # shape raw \<and>
               (\<forall>h a. h a = data y \<longrightarrow>
                  fst (deprocess_image \<lparr>ref_shape = tl (shape y), ref_buf = a\<rparr> h) = Inr img))) \<and>
         (\<forall>h a. length (h a) = H * W * C \<longrightarrow>
            (\<exists>r h' x'. deprocess_image \<lparr>ref_shape = [H, W, C], ref_buf = a\<rparr> h = (Inr r, h') \<and>
               preprocess_input (img_to_array r) = Inr x' \<and> shape x' = [H, W, C] \<and>
               (\<forall>k<H * W * C.
                  0 \<le> h a ! k + vgg_mean (k mod C) \<and> h a ! k + vgg_mean (k mod C) \<le> 255 \<longrightarrow>
                  h a ! k - 1 < data x' ! k \<and> data x' ! k \<le> h a ! k)))"
proof -
  obtain x where x: "preprocess_input raw = Inr x" and shx: "shape x = shape raw"
    using preprocess_input_rank3[OF sh ch] by (simp add: sh)
  have undo: "fst (deprocess_image \<lparr>ref_shape = shape x, ref_buf = a\<rparr> h) =
      Inr \<lparr>shape = shape raw, data = map (\<lambda>v. astype_uint8 (np_clip v 0 255)) (data raw)\<rparr>"
    if "h a = data x" for h a
    using sh ch wf x that by (rule deprocess_preprocessed_data)
  have pipeline: "\<exists>y. load_and_process_image E p = Inr y \<and> shape y = 1 # shape raw \<and>
      (\<forall>h a. h a = data y \<longrightarrow>
         fst (deprocess_image \<lparr>ref_shape = tl (shape y), ref_buf = a\<rparr> h) = Inr img)"
    if "load_img E p = Inr img \<and> img_to_array img = raw" for E :: "'o env" and p img
  proof -
    from that have ld: "load_img E p = Inr img" and raw: "raw = img_to_array img" by simp_all
    have y: "load_and_process_image E p = Inr (np_expand_dims x)"
      by (simp add: load_and_process_image_def bind_err_def ld raw[symmetric] x)
    have "fst (deprocess_image \<lparr>ref_shape = tl (shape (np_expand_dims x)), ref_buf = a\<rparr> h)
            = Inr img"
      if "h a = data (np_expand_dims x)" for h a
    proof -
      from that have "h a = data x" by (simp add: np_expand_dims_def)
      from undo[of h a, OF this] show ?thesis
        by (simp add: np_expand_dims_def raw img_to_array_roundtrip)
    qed
    then show ?thesis using y shx by (simp add: np_expand_dims_def)
  qed
  have redo: "\<exists>r h' x'. deprocess_image \<lparr>ref_shape = [H, W, C], ref_buf = a\<rparr> h = (Inr r, h') \<and>
       preprocess_input (img_to_array r) = Inr x' \<and> shape x' = [H, W, C] \<and>
       (\<forall>k<H * W * C.
          0 \<le> h a ! k + vgg_mean (k mod C) \<and> h a ! k + vgg_mean (k mod C) \<le> 255 \<longrightarrow>
          h a ! k - 1 < data x' ! k \<and> data x' ! k \<le> h a ! k)"
    if len: "length (h a) = H * W * C" for h a
  proof -
    from preprocess_deprocessed_data[of C h a H W, OF ch len] obtain r h' x'
      where run: "deprocess_image \<lparr>ref_shape = [H, W, C], ref_buf = a\<rparr> h = (Inr r, h')"
        and pre: "preprocess_input (img_to_array r) = Inr x'" and shx': "shape x' = [H, W, C]"
        and at: "\<forall>k<H * W * C.
              data x' ! k = of_int \<lfloor>np_clip (h a ! k + vgg_mean (k mod C)) 0 255\<rfloor>
                            - vgg_mean (k mod C)"
      by blast
    have "h a ! k - 1 < data x' ! k \<and> data x' ! k \<le> h a ! k"
      if "k < H * W * C" and "0 \<le> h a ! k + vgg_mean (k mod C)"
        and "h a ! k + vgg_mean (k mod C) \<le> 255" for k
      using at that(1) floor_clip_close[OF that(2,3)] by simp
    with run pre shx' show ?thesis by blast
  qed
  show ?thesis using x shx undo pipeline redo by blast
qed

lemma demo_deprocess_run:
  "deprocess_image \<lparr>ref_shape = [1, 1, 3], ref_buf = 0\<rparr> (\<lambda>_. [1, 2, 3]) =
     (Inr \<lparr>shape = [1, 1, 3], data = [126, 118, 104]\<rparr>,
      (\<lambda>_. [1, 2, 3])(0 := [1 + 103.939, 2 + 116.779, 3 + 123.68]))"
proof -
  let ?x = "\<lparr>ref_shape = [1, 1, 3], ref_buf = 0\<rparr>"
  let ?h = "\<lambda>_ :: nat. [1, 2, 3 :: real]"
  have b: "map (\<lambda>k. ?h (ref_buf ?x) ! k + vgg_mean (axis2 (ref_shape ?x) k))
             [0..<length (?h (ref_buf ?x))] = [1 + 103.939, 2 + 116.779, 3 + 123.68]"
    by (simp add: axis2_rank3 vgg_mean_def upt_rec)
  have f: "map (\<lambda>v. astype_uint8 (np_clip v 0 255))
             (flip_axis2 [1, 1, 3] [1 + 103.939, 2 + 116.779, 3 + 123.68]) = [126, 118, 104]"
    by (simp add: flip_axis2_def axis2_rank3 upt_rec np_clip_def astype_uint8_def)
  have "deprocess_image ?x ?h =
      (Inr \<lparr>shape = ref_shape ?x,
            data = map (\<lambda>v. astype_uint8 (np_clip v 0 255))
                     (flip_axis2 (ref_shape ?x) [1 + 103.939, 2 + 116.779, 3 + 123.68])\<rparr>,
       ?h(ref_buf ?x := [1 + 103.939, 2 + 116.779, 3 + 123.68]))"
    unfolding b[symmetric] by (rule deprocess_image_result) simp_all
  then show ?thesis by (simp only: array_ref.simps f)
qed

theorem deprocess_image_mutates_argument_witness:
  "fst (deprocess_image \<lparr>ref_shape = [1, 1, 3], ref_buf = 0\<rparr> (\<lambda>_. [1, 2, 3]))
     = Inr \<lparr>shape = [1, 1, 3], data = [126, 118, 104]\<rparr> \<and>
   snd (deprocess_image \<lparr>ref_shape = [1, 1, 3], ref_buf = 0\<rparr> (\<lambda>_. [1, 2, 3])) 0
     = [1 + 103.939, 2 + 116.779, 3 + 123.68] \<and>
   snd (deprocess_image \<lparr>ref_shape = [1, 1, 3], ref_buf = 0\<rparr> (\<lambda>_. [1, 2, 3])) 0
     \<noteq> [1, 2, 3]"
proof -
  let ?x = "\<lparr>ref_shape = [1, 1, 3], ref_buf = 0\<rparr>"
  let ?h = "\<lambda>_ :: nat. [1, 2, 3 :: real]"
  have "\<exists>r h'. deprocess_image ?x ?h = (Inr r, h') \<and>
           (\<forall>a. a \<noteq> ref_buf ?x \<longrightarrow> h' a = ?h a) \<and>
           length (h' (ref_buf ?x)) = 1 * 1 * 3 \<and>
           (\<forall>p<1 * 1.
              h' (ref_buf ?x) ! (p * 3) = ?h (ref_buf ?x) ! (p * 3) + 103.939 \<and>
              h' (ref_buf ?x) ! (p * 3 + 1) = ?h (ref_buf ?x) ! (p * 3 + 1) + 116.779 \<and>
              h' (ref_buf ?x) ! (p * 3 + 2) = ?h (ref_buf ?x) ! (p * 3 + 2) + 123.68 \<and>
              (\<forall>c. 3 \<le> c \<and> c < 3 \<longrightarrow>
                 h' (ref_buf ?x) ! (p * 3 + c) = ?h (ref_buf ?x) ! (p * 3 + c))) \<and>
           r = \<lparr>shape = [1, 1, 3],
                 data = map (\<lambda>v. astype_uint8 (np_clip v 0 255))
                            (flip_axis2 [1, 1, 3] (h' (ref_buf ?x)))\<rparr> \<and>
           (0 < (1::nat) * 1 \<longrightarrow> h' (ref_buf ?x) \<noteq> ?h (ref_buf ?x))"
    by (rule deprocess_image_mutates_argument) simp_all
  then obtain r h' where run: "deprocess_image ?x ?h = (Inr r, h')"
    and ne0: "0 < (1::nat) * 1 \<longrightarrow> h' (ref_buf ?x) \<noteq> ?h (ref_buf ?x)"
    by (elim exE conjE) (rule that, assumption+)
  have "h' 0 \<noteq> [1, 2, 3]" using ne0 by simp
  then have c: "snd (deprocess_image ?x ?h) 0 \<noteq> [1, 2, 3]"
    unfolding run snd_conv .
  have a: "fst (deprocess_image ?x ?h) = Inr \<lparr>shape = [1, 1, 3], data = [126, 118, 104]\<rparr>"
    by (simp only: demo_deprocess_run fst_conv)
  have b: "snd (deprocess_image ?x ?h) 0 = [1 + 103.939, 2 + 116.779, 3 + 123.68]"
    by (simp only: demo_deprocess_run snd_conv fun_upd_same)
  show ?thesis using a b c by (intro conjI)
qed

lemma demo_clip_preprocess:
  "preprocess_input \<lparr>shape = [1, 1, 3], data = [300, - 5, 7.5]\<rparr>
     = Inr \<lparr>shape = [1, 1, 3], data = [7.5 - 103.939, - 5 - 116.779, 300 - 123.68]\<rparr>"
  by (simp add: preprocess_input_def vgg_mean_def upt_rec)

lemma demo_deprocess_shifted:
  "deprocess_image \<lparr>ref_shape = [1, 1, 3], ref_buf = 0\<rparr> (\<lambda>_. [- 100, - 100, - 100]) =
     (Inr \<lparr>shape = [1, 1, 3], data = [23, 16, 3]\<rparr>,
      (\<lambda>_. [- 100, - 100, - 100])(0 := [- 100 + 103.939, - 100 + 116.779, - 100 + 123.68]))"
proof -
  let ?x = "\<lparr>ref_shape = [1, 1, 3], ref_buf = 0\<rparr>"
  let ?h = "\<lambda>_ :: nat. [- 100, - 100, - 100 :: real]"
  have b: "map (\<lambda>k. ?h (ref_buf ?x) ! k + vgg_mean (axis2 (ref_shape ?x) k))
             [0..<length (?h (ref_buf ?x))]
           = [- 100 + 103.939, - 100 + 116.779, - 100 + 123.68]"
    by (simp add: axis2_rank3 vgg_mean_def upt_rec)
  have f: "map (\<lambda>v. astype_uint8 (np_clip v 0 255))
             (flip_axis2 [1, 1, 3] [- 100 + 103.939, - 100 + 116.779, - 100 + 123.68])
           = [23, 16, 3]"
    by (simp add: flip_axis2_def axis2_rank3 upt_rec np_clip_def astype_uint8_def)
  have "deprocess_image ?x ?h =
      (Inr \<lparr>shape = ref_shape ?x,
            data = map (\<lambda>v. astype_uint8 (np_clip v 0 255))
                     (flip_axis2 (ref_shape ?x)
                        [- 100 + 103.939, - 100 + 116.779, - 100 + 123.68])\<rparr>,
       ?h(ref_buf ?x := [- 100 + 103.939, - 100 + 116.779, - 100 + 123.68]))"
    unfolding b[symmetric] by (rule deprocess_image_result) simp_all
  then show ?thesis by (simp only: array_ref.simps f)
qed

theorem deprocess_inverts_preprocess_witness:
  "load_and_process_image demo_env CONTENT_IMAGE = Inr demo_content \<and>
   fst (deprocess_image \<lparr>ref_shape = tl (shape demo_content), ref_buf = 0\<rparr>
          (\<lambda>_. data demo_content))
     = Inr \<lparr>shape = [1, 1, 3], data = [10, 20, 30]\<rparr> \<and>
   fst (deprocess_image \<lparr>ref_shape = [1, 1, 3], ref_buf = 0\<rparr>
          (\<lambda>_. [7.5 - 103.939, - 5 - 116.779, 300 - 123.68]))
     = Inr \<lparr>shape = [1, 1, 3], data = [255, 0, 7]\<rparr> \<and>
   (\<exists>x'. preprocess_input (img_to_array \<lparr>shape = [1, 1, 3], data = [23, 16, 3]\<rparr>) = Inr x' \<and>
      - 100 - 1 < data x' ! 0 \<and> data x' ! 0 \<le> - 100)"
proof -
  let ?img = "\<lparr>shape = [1, 1, 3], data = [10, 20, 30 :: 8 word]\<rparr>"
  let ?raw = "\<lparr>shape = [1, 1, 3], data = [300, - 5, 7.5 :: real]\<rparr>"
  let ?x = "\<lparr>shape = [1, 1, 3], data = [7.5 - 103.939, - 5 - 116.779, 300 - 123.68 :: real]\<rparr>"
  have ld: "load_img demo_env CONTENT_IMAGE = Inr ?img \<and> img_to_array ?img = img_to_array ?img"
    by (simp add: demo_env_def paths_differ)
  have pre1: "shape (img_to_array ?img) = [1, 1, 3]" "(3::nat) \<le> 3" "wf_array (img_to_array ?img)"
    by (simp_all add: img_to_array_def wf_array_def)
  note pixels = deprocess_inverts_preprocess [OF pre1, THEN conjunct2, THEN conjunct1,
      rule_format, OF ld]
  then obtain y where y: "load_and_process_image demo_env CONTENT_IMAGE = Inr y"
    and undo: "\<forall>h a. h a = data y \<longrightarrow>
             fst (deprocess_image \<lparr>ref_shape = tl (shape y), ref_buf = a\<rparr> h) = Inr ?img"
    by (elim exE conjE) (rule that, assumption+)
  have yd: "y = demo_content" using y demo_load_content by simp
  have one: "fst (deprocess_image \<lparr>ref_shape = tl (shape demo_content), ref_buf = 0\<rparr>
          (\<lambda>_. data demo_content)) = Inr ?img"
    using undo[rule_format, of "\<lambda>_. data demo_content" 0] by (simp only: yd)
  have pre2: "shape ?raw = [1, 1, 3]" "(3::nat) \<le> 3" "wf_array ?raw"
    by (simp_all add: wf_array_def)
  note clip = deprocess_inverts_preprocess [OF pre2, THEN conjunct1]
  then obtain x where x: "preprocess_input ?raw = Inr x"
    and undo2: "\<forall>h a. h a = data x \<longrightarrow>
             fst (deprocess_image \<lparr>ref_shape = shape x, ref_buf = a\<rparr> h) =
               Inr \<lparr>shape = shape ?raw,
                    data = map (\<lambda>v. astype_uint8 (np_clip v 0 255)) (data ?raw)\<rparr>"
    by (elim exE conjE) (rule that, assumption+)
  have xd: "x = ?x" using x demo_clip_preprocess by simp
  have vals: "map (\<lambda>v. astype_uint8 (np_clip v 0 255)) [300, - 5, 7.5] = [255, 0, 7]"
    by (simp add: np_clip_def astype_uint8_def)
  have "fst (deprocess_image \<lparr>ref_shape = shape ?x, ref_buf = 0\<rparr> (\<lambda>_. data ?x)) =
      Inr \<lparr>shape = shape ?raw, data = map (\<lambda>v. astype_uint8 (np_clip v 0 255)) (data ?raw)\<rparr>"
    using undo2[rule_format, of "\<lambda>_. data ?x" 0] by (simp only: xd)
  then have two: "fst (deprocess_image \<lparr>ref_shape = [1, 1, 3], ref_buf = 0\<rparr>
          (\<lambda>_. [7.5 - 103.939, - 5 - 116.779, 300 - 123.68]))
     = Inr \<lparr>shape = [1, 1, 3], data = [255, 0, 7]\<rparr>"
    by (simp only: vals ndarray.simps)
  let ?h = "\<lambda>_ :: nat. [- 100, - 100, - 100 :: real]"
  have len: "length (?h 0) = 1 * 1 * 3" by simp
  note other = deprocess_inverts_preprocess [OF pre2, THEN conjunct2, THEN conjunct2,
      rule_format, of ?h 0, OF len]
  then obtain r h' x'
    where run: "deprocess_image \<lparr>ref_shape = [1, 1, 3], ref_buf = 0\<rparr> ?h = (Inr r, h')"
      and pre: "preprocess_input (img_to_array r) = Inr x'"
      and near: "\<forall>k<1 * 1 * 3.
          0 \<le> ?h 0 ! k + vgg_mean (k mod 3) \<and> ?h 0 ! k + vgg_mean (k mod 3) \<le> 255 \<longrightarrow>
          ?h 0 ! k - 1 < data x' ! k \<and> data x' ! k \<le> ?h 0 ! k"
    by (elim exE conjE) (rule that, assumption+)
  have rd: "r = \<lparr>shape = [1, 1, 3], data = [23, 16, 3]\<rparr>"
    using run unfolding demo_deprocess_shifted by simp
  have "(0::nat) < 1 * 1 * 3" by simp
  moreover have "0 \<le> ?h 0 ! 0 + vgg_mean (0 mod 3) \<and> ?h 0 ! 0 + vgg_mean (0 mod 3) \<le> 255"
    by (simp add: vgg_mean_def)
  ultimately have "?h 0 ! 0 - 1 < data x' ! 0 \<and> data x' ! 0 \<le> ?h 0 ! 0"
    using near by blast
  then have "- 100 - 1 < data x' ! 0 \<and> data x' ! 0 \<le> - 100" by simp
  with pre rd have three: "\<exists>x'. preprocess_input
        (img_to_array \<lparr>shape = [1, 1, 3], data = [23, 16, 3]\<rparr>) = Inr x' \<and>
      - 100 - 1 < data x' ! 0 \<and> data x' ! 0 \<le> - 100"
    by blast
  show ?thesis using demo_load_content one two three by (intro conjI)
qed

end
